theory Spec2Isabelle
  imports Complex_Main
begin

text \<open>
  A model of the Dropbox ingestion service: the sync route
  (\<open>backend/routes/dropbox.py\<close>, with the helpers of
  \<open>backend/services/dropbox_service.py\<close>) and the queue worker (\<open>worker/main.py\<close>).
  Each Python function is a HOL function of the same name. What the code asks of
  services outside it (Dropbox, blob storage, the database driver, the queue, the
  document converter, the text splitter, the embedding service, the clock) is an
  argument of the model: a record of answers, where an answer is a value or an
  exception. The state the code changes (the two database collections, the blob
  container, the queue) is passed in and returned. Definitions come first, properties
  after them.
\<close>

section \<open>Python values used by the worker and the sync route\<close>

text \<open>
  Strings are character lists, one character for each code point; the model covers the
  strings whose code points are below 256. A JSON or dictionary field that may be missing or
  \<open>None\<close> is an option; Python's truth test of such a field (\<open>if x\<close>, \<open>all([...])\<close>)
  holds for a present, non-empty string.
\<close>

definition truthy :: "string option \<Rightarrow> bool" where
  "truthy x = (case x of None \<Rightarrow> False | Some s \<Rightarrow> s \<noteq> [])"

text \<open>The string held by a field that passed the truth test (empty otherwise).\<close>

definition the_str :: "string option \<Rightarrow> string" where
  "the_str x = (case x of None \<Rightarrow> [] | Some s \<Rightarrow> s)"

text \<open>\<open>str.startswith\<close> and the substring test \<open>sub in s\<close>.\<close>

definition startswith :: "string \<Rightarrow> string \<Rightarrow> bool" where
  "startswith s p = (take (length p) s = p)"

fun contains :: "string \<Rightarrow> string \<Rightarrow> bool" where
  "contains [] sub = (sub = [])"
| "contains (c # cs) sub = (startswith (c # cs) sub \<or> contains cs sub)"

text \<open>
  \<open>str.strip()\<close> removes the whitespace characters at both ends. Below 256 these are
  tab, line feed, vertical tab, form feed, carriage return, the four separators 28 to
  31, space, next line (133) and no-break space (160).
\<close>

definition is_space :: "char \<Rightarrow> bool" where
  "is_space c = (let n = (of_char c :: nat) in
                   (9 \<le> n \<and> n \<le> 13) \<or> (28 \<le> n \<and> n \<le> 32) \<or> n = 133 \<or> n = 160)"

definition strip :: "string \<Rightarrow> string" where
  "strip s = rev (dropWhile is_space (rev (dropWhile is_space s)))"

text \<open>\<open>str.lower()\<close>: below 256 the upper-case letters are 65 to 90, 192 to 214 and 216
  to 222, each 32 below its lower-case form.\<close>

definition lower_char :: "char \<Rightarrow> char" where
  "lower_char c = (let n = (of_char c :: nat) in
                     if (65 \<le> n \<and> n \<le> 90) \<or> (192 \<le> n \<and> n \<le> 214) \<or> (216 \<le> n \<and> n \<le> 222)
                     then char_of (n + 32) else c)"

definition lower :: "string \<Rightarrow> string" where
  "lower s = map lower_char s"

text \<open>The decimal text of an integer, as an f-string prints it.\<close>

definition digit :: "nat \<Rightarrow> char" where
  "digit d = ''0123456789'' ! d"

fun str_nat :: "nat \<Rightarrow> string" where
  "str_nat n = (if n < 10 then [digit n] else str_nat (n div 10) @ [digit (n mod 10)])"

definition str_int :: "int \<Rightarrow> string" where
  "str_int i = (if i < 0 then CHR ''-'' # str_nat (nat (- i)) else str_nat (nat i))"


section \<open>Worker configuration\<close>

text \<open>
  \<open>WorkerConfig\<close>: the settings read by the code modelled here. \<open>int(os.getenv(...))\<close>
  accepts any integer and \<open>float(os.getenv(...))\<close> any number; the constructor validates
  neither. The delay base is a Python float, taken here as an exact real number, and
  its powers as exact powers: the rounding of a float power, and the \<open>OverflowError\<close> it
  raises beyond the range of floats, are outside the model.
\<close>

record WorkerConfig =
  max_receive_count :: int
  max_retries :: int
  retry_delay_base :: real
  chunk_size :: int
  chunk_overlap :: int

definition default_config :: WorkerConfig where
  "default_config = \<lparr> max_receive_count = 3, max_retries = 3, retry_delay_base = 2,
                       chunk_size = 512, chunk_overlap = 50 \<rparr>"


section \<open>Download with retry\<close>

text \<open>
  \<open>DropboxFileWorker.download_file_with_retry\<close>. The argument \<open>dl\<close> tells, for each
  value of the loop variable \<open>attempt\<close>, whether \<open>_download_file\<close> returns (it only ever
  returns \<open>True\<close>) or raises. The loop \<open>for attempt in range(max_retries)\<close> runs
  \<open>nat max_retries\<close> times at most, none for a non-positive setting. The result is the
  value returned, the delays passed to \<open>asyncio.sleep\<close> in order, and the number of
  calls of \<open>_download_file\<close> made.
\<close>

fun retry_loop :: "WorkerConfig \<Rightarrow> (nat \<Rightarrow> bool) \<Rightarrow> nat \<Rightarrow> nat \<Rightarrow> real list \<Rightarrow> bool \<times> real list \<times> nat" where
  "retry_loop cfg dl 0 attempt sleeps = (False, sleeps, attempt)"
| "retry_loop cfg dl (Suc remaining) attempt sleeps =
     (if dl attempt then (True, sleeps, Suc attempt)
      else if int attempt < max_retries cfg - 1
           then retry_loop cfg dl remaining (Suc attempt) (sleeps @ [retry_delay_base cfg ^ attempt])
           else retry_loop cfg dl remaining (Suc attempt) sleeps)"

definition download_file_with_retry :: "WorkerConfig \<Rightarrow> (nat \<Rightarrow> bool) \<Rightarrow> bool \<times> real list \<times> nat" where
  "download_file_with_retry cfg dl = retry_loop cfg dl (nat (max_retries cfg)) 0 []"

definition download_ok :: "WorkerConfig \<Rightarrow> (nat \<Rightarrow> bool) \<Rightarrow> bool" where
  "download_ok cfg dl = fst (download_file_with_retry cfg dl)"

definition download_delays :: "WorkerConfig \<Rightarrow> (nat \<Rightarrow> bool) \<Rightarrow> real list" where
  "download_delays cfg dl = fst (snd (download_file_with_retry cfg dl))"

definition download_attempts :: "WorkerConfig \<Rightarrow> (nat \<Rightarrow> bool) \<Rightarrow> nat" where
  "download_attempts cfg dl = snd (snd (download_file_with_retry cfg dl))"


section \<open>Documents and external services of the worker\<close>

text \<open>
  A chunk dictionary built by \<open>DoclingProcessor.chunk_markdown\<close>. The key
  \<open>"embedding"\<close> is absent until \<open>generate_embeddings\<close> adds it, so it is an option.
  An embedding vector is opaque data; its floats are written as reals.
\<close>

record chunk_metadata =
  chunk_type :: string
  char_count :: nat
  token_count :: nat

record chunk =
  chunk_index :: nat
  content :: string
  metadata :: chunk_metadata
  embedding :: "real list option"

text \<open>A document of the collection \<open>dropbox_chunks\<close>.\<close>

record doc_chunk =
  doc_file_id :: string
  doc_chunk_index :: nat
  doc_content :: string
  doc_embedding :: "real list"
  doc_metadata :: chunk_metadata
  doc_created_at :: nat

text \<open>
  A document of the collection \<open>dropbox_files\<close>, with the fields written by the sync
  route and by the worker. \<open>metadata_folder\<close> and \<open>metadata_content_hash\<close> are
  \<open>metadata.folder\<close> and \<open>metadata.content_hash\<close>; \<open>attempts\<close> and \<open>last_error\<close> are
  \<open>processing_metadata.attempts\<close> and \<open>processing_metadata.last_error\<close>. A field that a
  document may lack, or hold as \<open>None\<close>, is an option. Times are clock readings.
\<close>

record file_record =
  dropbox_path :: string
  dropbox_file_id :: string
  dropbox_rev :: "string option"
  filename :: string
  file_type :: string
  blob_url :: string
  file_hash :: string
  file_size :: nat
  user_id :: string
  processing_status :: string
  chunk_count :: nat
  created_at :: nat
  updated_at :: nat
  dropbox_created_at :: "nat option"
  dropbox_modified_at :: "nat option"
  metadata_folder :: string
  metadata_content_hash :: "string option"
  markdown_blob_url :: "string option"
  attempts :: "int option"
  last_error :: "string option"

text \<open>
  The database: \<open>dropbox_files\<close> as a list of documents with their \<open>_id\<close> (in its string
  form), \<open>dropbox_chunks\<close> as the list of documents inserted so far.
\<close>

record database =
  dropbox_files :: "(string \<times> file_record) list"
  dropbox_chunks :: "doc_chunk list"

text \<open>\<open>find_one({"_id": ...})\<close> and \<open>update_one({"_id": ...}, {"$set": ...})\<close> without upsert:
  the first document with that \<open>_id\<close> is changed, none if there is no match.\<close>

fun find_one_by_id :: "string \<Rightarrow> (string \<times> file_record) list \<Rightarrow> file_record option" where
  "find_one_by_id oid [] = None"
| "find_one_by_id oid ((k, r) # rest) = (if k = oid then Some r else find_one_by_id oid rest)"

fun update_one_by_id :: "string \<Rightarrow> (file_record \<Rightarrow> file_record) \<Rightarrow> (string \<times> file_record) list
                          \<Rightarrow> (string \<times> file_record) list" where
  "update_one_by_id oid f [] = []"
| "update_one_by_id oid f ((k, r) # rest) =
     (if k = oid then (k, f r) # rest else (k, r) # update_one_by_id oid f rest)"

definition matched_count :: "string \<Rightarrow> (string \<times> file_record) list \<Rightarrow> nat" where
  "matched_count oid files = (case find_one_by_id oid files of None \<Rightarrow> 0 | Some r \<Rightarrow> 1)"

text \<open>
  The body of a queue message after \<open>json.loads\<close>. The four fields the worker requires
  are options: the key may be missing.
\<close>

record message_data =
  msg_message_type :: string
  msg_file_id :: "string option"
  msg_dropbox_path :: string
  msg_dropbox_file_id :: string
  msg_blob_url :: "string option"
  msg_filename :: "string option"
  msg_file_type :: "string option"
  msg_user_id :: string
  msg_timestamp :: nat

text \<open>
  A \<open>ServiceBusReceivedMessage\<close>: \<open>body\<close> is \<open>None\<close> when decoding or parsing the body
  raises one of the exceptions the worker catches (among them a body that is valid JSON
  but no object); \<open>delivery_count\<close> is the SDK property of type \<open>Optional[int]\<close>.
\<close>

record message =
  body :: "message_data option"
  delivery_count :: "int option"

text \<open>The outcome of a database call: it returns, or it raises an exception \<open>e\<close> with
  \<open>str(e)\<close> as given. \<open>insert_many\<close> may have written some documents before it raises.\<close>

datatype db_result = DbOk | DbRaises string

datatype insert_result = InsertOk | InsertRaises nat string

text \<open>The outcome of creating the temporary file: it is there, or the call raises.\<close>

datatype os_result = OsOk | OsRaises string

text \<open>
  What the services outside the worker answer while one message is processed:
  \<^item> \<open>db_set_processing\<close>, \<open>db_insert_many\<close>, \<open>db_set_completed\<close>, \<open>db_set_failed\<close>: the
    outcomes of the four database calls (an \<open>_id\<close> that \<open>ObjectId\<close> rejects is a raise);
  \<^item> \<open>named_temporary_file\<close>: the outcome of \<open>tempfile.NamedTemporaryFile\<close>;
  \<^item> \<open>download_attempt\<close>: for each attempt, whether \<open>_download_file\<close> returns;
  \<^item> \<open>convert_to_markdown\<close>, \<open>upload_markdown_to_blob\<close>: the value the method returns,
    \<open>None\<close> after any failure inside it;
  \<^item> \<open>encoding\<close>: the tiktoken encoder, absent if it failed to load, giving the number
    of tokens of a text or raising;
  \<^item> \<open>text_splitter\<close>: \<open>RecursiveCharacterTextSplitter(chunk_size, chunk_overlap,
    separators).split_text\<close>, \<open>None\<close> when constructing or running it raises;
  \<^item> \<open>openai_client\<close>, \<open>embeddings_create\<close>: whether the client exists, and the list
    \<open>response.data\<close> of embeddings for a batch of texts, \<open>None\<close> when the request raises;
  \<^item> \<open>utcnow\<close>: the clock.
  Removing the temporary file changes nothing the model keeps, and its failure is ignored
  by the code.
\<close>

record world =
  db_set_processing :: db_result
  named_temporary_file :: os_result
  download_attempt :: "nat \<Rightarrow> bool"
  convert_to_markdown :: "string option"
  upload_markdown_to_blob :: "string option"
  encoding :: "(string \<Rightarrow> nat option) option"
  text_splitter :: "int \<Rightarrow> int \<Rightarrow> string list \<Rightarrow> string \<Rightarrow> string list option"
  openai_client :: bool
  embeddings_create :: "string list \<Rightarrow> real list list option"
  db_insert_many :: insert_result
  db_set_completed :: db_result
  db_set_failed :: db_result
  utcnow :: nat


section \<open>DoclingProcessor\<close>

text \<open>\<open>count_tokens\<close>: the encoder's count, or \<open>len(text) // 4\<close> when there is no encoder
  or it raises.\<close>

definition count_tokens :: "(string \<Rightarrow> nat option) option \<Rightarrow> string \<Rightarrow> nat" where
  "count_tokens enc text =
     (case enc of
        None \<Rightarrow> length text div 4
      | Some encode \<Rightarrow> (case encode text of Some n \<Rightarrow> n | None \<Rightarrow> length text div 4))"

definition classify :: "string \<Rightarrow> string" where
  "classify chunk_text =
     (if contains chunk_text ''|'' \<and> contains chunk_text ''---'' then ''table''
      else if startswith chunk_text ''- '' \<or> startswith chunk_text ''* '' then ''list''
      else if startswith chunk_text ''#'' then ''heading''
      else ''text'')"

text \<open>
  The loop \<open>for idx, chunk_text in enumerate(chunks_text)\<close> of \<open>chunk_markdown\<close>: \<open>idx\<close>
  advances with every piece, also with the pieces skipped by \<open>continue\<close>.
\<close>

fun make_chunks :: "(string \<Rightarrow> nat option) option \<Rightarrow> nat \<Rightarrow> string list \<Rightarrow> chunk list" where
  "make_chunks enc idx [] = []"
| "make_chunks enc idx (piece # pieces) =
     (let chunk_text = strip piece in
      if chunk_text = [] then make_chunks enc (Suc idx) pieces
      else \<lparr> chunk_index = idx, content = chunk_text,
             metadata = \<lparr> chunk_type = classify chunk_text, char_count = length chunk_text,
                          token_count = count_tokens enc chunk_text \<rparr>,
             embedding = None \<rparr> # make_chunks enc (Suc idx) pieces)"

definition newline :: char where
  "newline = CHR 0x0A"

definition separators :: "string list" where
  "separators = [newline # newline # ''## '', newline # newline # ''### '',
                 newline # newline # [], newline # [], ''. '', '' '', '''']"

definition chunk_markdown :: "WorkerConfig \<Rightarrow> world \<Rightarrow> string \<Rightarrow> chunk list" where
  "chunk_markdown cfg w markdown_content =
     (case text_splitter w (chunk_size cfg * 4) (chunk_overlap cfg * 4) separators markdown_content of
        None \<Rightarrow> []
      | Some chunks_text \<Rightarrow> make_chunks (encoding w) 0 chunks_text)"

text \<open>\<open>generate_embeddings\<close>: the loop over \<open>enumerate(response.data)\<close> gives the
  \<open>idx\<close>-th embedding to the \<open>idx\<close>-th chunk while there is one.\<close>

fun add_embeddings :: "chunk list \<Rightarrow> real list list \<Rightarrow> chunk list" where
  "add_embeddings [] es = []"
| "add_embeddings (c # cs) [] = c # cs"
| "add_embeddings (c # cs) (e # es) = c\<lparr>embedding := Some e\<rparr> # add_embeddings cs es"

definition generate_embeddings :: "world \<Rightarrow> chunk list \<Rightarrow> chunk list" where
  "generate_embeddings w chunks =
     (if \<not> openai_client w then chunks
      else let texts = map content chunks in
           if texts = [] then chunks
           else (case embeddings_create w texts of
                   None \<Rightarrow> chunks
                 | Some data \<Rightarrow> add_embeddings chunks data))"


section \<open>DropboxFileWorker.process_dropbox_file\<close>

text \<open>The three \<open>update_one\<close> calls of the worker, as the \<open>$set\<close> each of them applies.\<close>

definition set_processing :: "nat \<Rightarrow> file_record \<Rightarrow> file_record" where
  "set_processing now r = r\<lparr> processing_status := ''processing'', updated_at := now \<rparr>"

definition set_completed :: "string \<Rightarrow> nat \<Rightarrow> nat \<Rightarrow> file_record \<Rightarrow> file_record" where
  "set_completed url n now r =
     r\<lparr> processing_status := ''completed'', markdown_blob_url := Some url,
        chunk_count := n, updated_at := now \<rparr>"

definition set_failed :: "string \<Rightarrow> nat \<Rightarrow> file_record \<Rightarrow> file_record" where
  "set_failed e now r =
     r\<lparr> processing_status := ''failed'', last_error := Some e, updated_at := now \<rparr>"

text \<open>The loop that prepares \<open>document_chunks\<close>: a chunk without the key
  \<open>"embedding"\<close> is skipped.\<close>

fun prepare_document_chunks :: "string \<Rightarrow> nat \<Rightarrow> chunk list \<Rightarrow> doc_chunk list" where
  "prepare_document_chunks fid now [] = []"
| "prepare_document_chunks fid now (c # cs) =
     (case embedding c of
        None \<Rightarrow> prepare_document_chunks fid now cs
      | Some e \<Rightarrow> \<lparr> doc_file_id = fid, doc_chunk_index = chunk_index c, doc_content = content c,
                    doc_embedding = e, doc_metadata = metadata c, doc_created_at = now \<rparr>
                  # prepare_document_chunks fid now cs)"

text \<open>
  The two places that write the completion status. Each returns \<open>Inr ()\<close> where the
  source reaches \<open>return True\<close>, and \<open>Inl msg\<close> where an exception \<open>e\<close> with
  \<open>str(e) = msg\<close> goes to the outer handler, together with the database as it is at
  that moment.
\<close>

definition complete_file :: "world \<Rightarrow> string \<Rightarrow> string \<Rightarrow> nat \<Rightarrow> database \<Rightarrow> (string + unit) \<times> database" where
  "complete_file w fid url n db =
     (case db_set_completed w of
        DbRaises e \<Rightarrow> (Inl e, db)
      | DbOk \<Rightarrow> (Inr (), db\<lparr> dropbox_files :=
                   update_one_by_id fid (set_completed url n (utcnow w)) (dropbox_files db) \<rparr>))"

definition insert_chunks :: "world \<Rightarrow> doc_chunk list \<Rightarrow> database \<Rightarrow> (string + unit) \<times> database" where
  "insert_chunks w document_chunks db =
     (if document_chunks = [] then (Inr (), db)
      else (case db_insert_many w of
              InsertRaises k e \<Rightarrow>
                (Inl e, db\<lparr> dropbox_chunks := dropbox_chunks db @ take k document_chunks \<rparr>)
            | InsertOk \<Rightarrow>
                (Inr (), db\<lparr> dropbox_chunks := dropbox_chunks db @ document_chunks \<rparr>)))"

text \<open>The statements of \<open>process_dropbox_file\<close> after the record is marked
  \<open>processing\<close>: the creation of the temporary file and the inner \<open>try\<close> block, from the
  download to \<open>return True\<close>.\<close>

definition pipeline :: "WorkerConfig \<Rightarrow> world \<Rightarrow> string \<Rightarrow> database \<Rightarrow> (string + unit) \<times> database" where
  "pipeline cfg w fid db =
     (case named_temporary_file w of
        OsRaises e \<Rightarrow> (Inl e, db)
      | OsOk \<Rightarrow>
          (if \<not> download_ok cfg (download_attempt w)
           then (Inl ''Failed to download file after retries'', db)
           else if \<not> truthy (convert_to_markdown w)
           then (Inl ''Failed to convert to markdown'', db)
           else if \<not> truthy (upload_markdown_to_blob w)
           then (Inl ''Failed to upload markdown to blob storage'', db)
           else
             let markdown_content = the_str (convert_to_markdown w);
                 url = the_str (upload_markdown_to_blob w);
                 chunks = chunk_markdown cfg w markdown_content
             in if chunks = [] then complete_file w fid url 0 db
                else
                  let chunks_with_embeddings = generate_embeddings w chunks;
                      document_chunks = prepare_document_chunks fid (utcnow w) chunks_with_embeddings
                  in (case insert_chunks w document_chunks db of
                        (Inl e, db') \<Rightarrow> (Inl e, db')
                      | (Inr u, db') \<Rightarrow> complete_file w fid url (length document_chunks) db')))"

text \<open>The outer \<open>except Exception\<close> handler: it tries to write the failure and returns
  \<open>False\<close> whether or not that write succeeds.\<close>

definition record_failure :: "world \<Rightarrow> string \<Rightarrow> string \<Rightarrow> database \<Rightarrow> database" where
  "record_failure w fid e db =
     (case db_set_failed w of
        DbRaises e' \<Rightarrow> db
      | DbOk \<Rightarrow> db\<lparr> dropbox_files :=
                   update_one_by_id fid (set_failed e (utcnow w)) (dropbox_files db) \<rparr>)"

definition required_fields :: "message_data \<Rightarrow> bool" where
  "required_fields d = (truthy (msg_file_id d) \<and> truthy (msg_blob_url d) \<and>
                        truthy (msg_filename d) \<and> truthy (msg_file_type d))"

definition process_dropbox_file :: "WorkerConfig \<Rightarrow> world \<Rightarrow> message \<Rightarrow> database \<Rightarrow> bool \<times> database" where
  "process_dropbox_file cfg w msg db =
     (case body msg of
        None \<Rightarrow> (False, db)
      | Some message_data \<Rightarrow>
          if \<not> required_fields message_data then (False, db)
          else
            let fid = the_str (msg_file_id message_data) in
            (case db_set_processing w of
               DbRaises e \<Rightarrow> (False, db)
             | DbOk \<Rightarrow>
                 if matched_count fid (dropbox_files db) = 0 then (False, db)
                 else
                   let db1 = db\<lparr> dropbox_files :=
                                update_one_by_id fid (set_processing (utcnow w)) (dropbox_files db) \<rparr>
                   in (case pipeline cfg w fid db1 of
                         (Inr u, db2) \<Rightarrow> (True, db2)
                       | (Inl e, db2) \<Rightarrow> (False, record_failure w fid e db2))))"


section \<open>DropboxFileWorker.run: resolving one received message\<close>

text \<open>
  The calls on the queue receiver, and how such a call ends: it returns, raises a
  \<open>ServiceBusError\<close>, or raises another exception.
\<close>

datatype receiver_call = complete_message | dead_letter_message string string | abandon_message

datatype call_result = Done | ServiceBusError | OtherError

text \<open>
  The call the loop body makes after \<open>process_dropbox_file\<close> returned \<open>success\<close>.
  \<open>None\<close> stands for the \<open>TypeError\<close> of comparing a delivery count \<open>None\<close> with an
  integer. The dead-letter call carries \<open>reason\<close> and \<open>error_description\<close>.
\<close>

definition resolve :: "WorkerConfig \<Rightarrow> bool \<Rightarrow> int option \<Rightarrow> receiver_call option" where
  "resolve cfg success dc =
     (if success then Some complete_message
      else (case dc of
              None \<Rightarrow> None
            | Some d \<Rightarrow>
                if d \<ge> max_receive_count cfg
                then Some (dead_letter_message ''MaxDeliveryCountExceeded''
                            (''Message failed processing after '' @ str_int d @ '' attempts''))
                else Some abandon_message))"

text \<open>
  All receiver calls made for one message, in order: a \<open>ServiceBusError\<close> is answered
  by a pause, any other exception by \<open>abandon_message\<close>, whose own failure is ignored.
\<close>

definition receiver_calls :: "WorkerConfig \<Rightarrow> (receiver_call \<Rightarrow> call_result) \<Rightarrow> bool \<Rightarrow> int option
                                \<Rightarrow> receiver_call list" where
  "receiver_calls cfg transport success dc =
     (case resolve cfg success dc of
        None \<Rightarrow> [abandon_message]
      | Some c \<Rightarrow> (case transport c of
                     Done \<Rightarrow> [c]
                   | ServiceBusError \<Rightarrow> [c]
                   | OtherError \<Rightarrow> [c, abandon_message]))"

definition handle_message :: "WorkerConfig \<Rightarrow> world \<Rightarrow> (receiver_call \<Rightarrow> call_result) \<Rightarrow> message \<Rightarrow> database
                                \<Rightarrow> receiver_call list \<times> database" where
  "handle_message cfg w transport msg db =
     (case process_dropbox_file cfg w msg db of
        (success, db') \<Rightarrow> (receiver_calls cfg transport success (delivery_count msg), db'))"

text \<open>
  The deliveries of one message whose processing fails every time, up to \<open>n\<close> of them,
  the first with delivery count \<open>dc\<close>. The queue redelivers an abandoned message with
  its delivery count raised by one, and delivers a dead-lettered message no more: this
  is the contract of the queue service. The count of the first delivery is the queue
  service's as well; the worker reads it and does not set it.
\<close>

fun failing_deliveries :: "WorkerConfig \<Rightarrow> nat \<Rightarrow> int \<Rightarrow> receiver_call list" where
  "failing_deliveries cfg 0 dc = []"
| "failing_deliveries cfg (Suc n) dc =
     (case resolve cfg False (Some dc) of
        Some abandon_message \<Rightarrow> abandon_message # failing_deliveries cfg n (dc + 1)
      | Some c \<Rightarrow> [c]
      | None \<Rightarrow> [])"


section \<open>The sync route: DropboxService helpers and manual_sync\<close>

text \<open>An entry of the listing returned by \<open>DropboxService.list_files\<close> (\<open>fm_id\<close>,
  \<open>fm_name\<close>, \<open>fm_size\<close> are the keys \<open>id\<close>, \<open>name\<close>, \<open>size\<close>).\<close>

record file_metadata =
  fm_id :: string
  fm_name :: string
  path_display :: string
  fm_size :: nat
  modified :: "nat option"
  server_modified :: "nat option"
  fm_rev :: "string option"
  content_hash :: "string option"

definition get_file_extension :: "string \<Rightarrow> string" where
  "get_file_extension name =
     (if CHR ''.'' \<in> set name then lower (rev (takeWhile (\<lambda>c. c \<noteq> CHR ''.'') (rev name))) else '''')"

definition supported_types :: "string list" where
  "supported_types = [''pdf'', ''docx'', ''doc'', ''pptx'', ''ppt'', ''txt'', ''md'', ''html'',
                      ''htm'', ''rtf'', ''xlsx'', ''xls'', ''csv'']"

definition is_supported_file_type :: "string \<Rightarrow> bool" where
  "is_supported_file_type t = (lower t \<in> set supported_types)"

text \<open>\<open>"/".join(path.split("/")[:-1])\<close>: the path up to its last slash.\<close>

definition folder_of :: "string \<Rightarrow> string" where
  "folder_of path =
     (if CHR ''/'' \<in> set path then rev (tl (dropWhile (\<lambda>c. c \<noteq> CHR ''/'') (rev path))) else '''')"

text \<open>
  The deduplication check of \<open>manual_sync\<close> for a file that has a record
  (the statements under \<open>if existing:\<close>), as the decision it takes.
\<close>

datatype dedup = Unchanged_metadata | Unchanged_hash | Changed

definition dedup_check :: "file_record \<Rightarrow> file_metadata \<Rightarrow> dedup" where
  "dedup_check existing fm =
     (let existing_modified = dropbox_modified_at existing;
          new_modified = server_modified fm
      in if existing_modified \<noteq> None \<and> new_modified \<noteq> None \<and> existing_modified = new_modified
         then Unchanged_metadata
         else let dropbox_content_hash = content_hash fm
              in if truthy dropbox_content_hash \<and> metadata_content_hash existing = dropbox_content_hash
                 then Unchanged_hash
                 else Changed)"

text \<open>
  The services the route calls. Every database call is named, and \<open>db_raises\<close> tells
  for a call and a Dropbox file id whether it raises.
\<close>

datatype db_call = FindExisting | TouchModified | Upsert | FindUpserted

record sync_world =
  dropbox_download :: "string \<Rightarrow> string option"
  sha256_hexdigest :: "string \<Rightarrow> string"
  blob_upload_raises :: "string \<Rightarrow> bool"
  blob_client_url :: "string \<Rightarrow> string"
  db_raises :: "db_call \<Rightarrow> string \<Rightarrow> bool"
  new_object_id :: "string \<Rightarrow> string"
  queue_send_ok :: "string \<Rightarrow> bool"
  sync_utcnow :: nat

text \<open>What the route changes: the database, the blob container, the queue, and the
  list of paths downloaded from Dropbox.\<close>

record sync_state =
  sync_db :: database
  blobs :: "(string \<times> string) list"
  queue :: "message_data list"
  downloaded :: "string list"

datatype py_error = NameError string

text \<open>
  The name \<open>file_hash\<close> as the body of \<open>manual_sync\<close> can see it: it is assigned
  nowhere in the function and defined nowhere in the module, so it has no value.
\<close>

definition file_hash_name :: "string option" where
  "file_hash_name = None"

text \<open>The dictionary literal \<open>file_record = {...}\<close>. Its last entry reads \<open>file_hash\<close>.\<close>

definition file_record_literal :: "sync_world \<Rightarrow> file_metadata \<Rightarrow> string \<Rightarrow> string \<Rightarrow> string
                                     \<Rightarrow> py_error + file_record" where
  "file_record_literal w fm ftype url sha256_hash =
     (case file_hash_name of
        None \<Rightarrow> Inl (NameError ''file_hash'')
      | Some h \<Rightarrow>
          Inr \<lparr> dropbox_path = path_display fm, dropbox_file_id = fm_id fm, dropbox_rev = fm_rev fm,
                filename = fm_name fm, file_type = ftype, blob_url = url, file_hash = sha256_hash,
                file_size = fm_size fm, user_id = ''system'', processing_status = ''pending'',
                chunk_count = 0, created_at = sync_utcnow w, updated_at = sync_utcnow w,
                dropbox_created_at = modified fm, dropbox_modified_at = server_modified fm,
                metadata_folder = folder_of (path_display fm), metadata_content_hash = Some h,
                markdown_blob_url = None, attempts = None, last_error = None \<rparr>)"

text \<open>\<open>update_one({"dropbox_file_id": ...}, {"$set": file_record}, upsert=True)\<close> on a
  document that exists: the fields of the literal are overwritten, the others stay.\<close>

definition set_file_record :: "file_record \<Rightarrow> file_record \<Rightarrow> file_record" where
  "set_file_record file_record r =
     file_record\<lparr> markdown_blob_url := markdown_blob_url r, attempts := attempts r,
                   last_error := last_error r \<rparr>"

fun find_one_by_dropbox_file_id :: "string \<Rightarrow> (string \<times> file_record) list \<Rightarrow> (string \<times> file_record) option" where
  "find_one_by_dropbox_file_id i [] = None"
| "find_one_by_dropbox_file_id i ((k, r) # rest) =
     (if dropbox_file_id r = i then Some (k, r) else find_one_by_dropbox_file_id i rest)"

datatype counted = Queued | Skipped

text \<open>
  The statements of the loop body after the deduplication check: download, digest,
  upload, record, upsert, enqueue. \<open>Skipped\<close> is also the result of the handler
  \<open>except Exception\<close> of the loop body; what was changed before the exception stays.
\<close>

definition upload_and_enqueue :: "sync_world \<Rightarrow> file_metadata \<Rightarrow> string \<Rightarrow> sync_state \<Rightarrow> counted \<times> sync_state" where
  "upload_and_enqueue w fm ftype st =
     (case dropbox_download w (path_display fm) of
        None \<Rightarrow> (Skipped, st)
      | Some file_content \<Rightarrow>
          let st1 = st\<lparr> downloaded := downloaded st @ [path_display fm] \<rparr>;
              sha256_hash = sha256_hexdigest w file_content;
              blob_name = ''dropbox/'' @ sha256_hash @ ''/'' @ fm_name fm
          in if blob_upload_raises w blob_name then (Skipped, st1)
             else
               let st2 = st1\<lparr> blobs := (blob_name, file_content) # blobs st1 \<rparr>;
                   url = blob_client_url w blob_name;
                   files = dropbox_files (sync_db st2);
                   existing = find_one_by_dropbox_file_id (fm_id fm) files
               in (case file_record_literal w fm ftype url sha256_hash of
                     Inl e \<Rightarrow> (Skipped, st2)
                   | Inr file_record \<Rightarrow>
                       if db_raises w Upsert (fm_id fm) then (Skipped, st2)
                       else
                         let oid = (case existing of Some (k, r) \<Rightarrow> k | None \<Rightarrow> new_object_id w (fm_id fm));
                             files' = (case existing of
                                         Some (k, r) \<Rightarrow> update_one_by_id k (set_file_record file_record) files
                                       | None \<Rightarrow> files @ [(oid, file_record)]);
                             st3 = st2\<lparr> sync_db := (sync_db st2)\<lparr> dropbox_files := files' \<rparr> \<rparr>
                         in if existing \<noteq> None \<and> db_raises w FindUpserted (fm_id fm) then (Skipped, st3)
                            else if queue_send_ok w oid
                            then (Queued, st3\<lparr> queue := queue st3 @
                                    [\<lparr> msg_message_type = ''dropbox_file'', msg_file_id = Some oid,
                                       msg_dropbox_path = path_display fm, msg_dropbox_file_id = fm_id fm,
                                       msg_blob_url = Some url, msg_filename = Some (fm_name fm),
                                       msg_file_type = Some ftype, msg_user_id = ''system'',
                                       msg_timestamp = sync_utcnow w \<rparr>] \<rparr>)
                            else (Skipped, st3)))"

text \<open>The body of the loop \<open>for file_metadata in files\<close>.\<close>

definition sync_file :: "sync_world \<Rightarrow> bool \<Rightarrow> file_metadata \<Rightarrow> sync_state \<Rightarrow> counted \<times> sync_state" where
  "sync_file w force_reprocess fm st =
     (let ftype = get_file_extension (fm_name fm) in
      if \<not> is_supported_file_type ftype then (Skipped, st)
      else if force_reprocess then upload_and_enqueue w fm ftype st
      else if db_raises w FindExisting (fm_id fm) then (Skipped, st)
      else (case find_one_by_dropbox_file_id (fm_id fm) (dropbox_files (sync_db st)) of
              None \<Rightarrow> upload_and_enqueue w fm ftype st
            | Some (oid, existing) \<Rightarrow>
                (case dedup_check existing fm of
                   Unchanged_metadata \<Rightarrow> (Skipped, st)
                 | Unchanged_hash \<Rightarrow>
                     if db_raises w TouchModified (fm_id fm) then (Skipped, st)
                     else (Skipped, st\<lparr> sync_db := (sync_db st)\<lparr> dropbox_files :=
                             update_one_by_id oid (\<lambda>r. r\<lparr> dropbox_modified_at := server_modified fm \<rparr>)
                               (dropbox_files (sync_db st)) \<rparr> \<rparr>)
                 | Changed \<Rightarrow> upload_and_enqueue w fm ftype st)))"

text \<open>\<open>manual_sync\<close> on the listing \<open>files\<close>: the counters and the response.\<close>

record SyncResponse =
  status :: string
  files_queued :: int
  files_skipped :: int
  message_text :: string

fun sync_loop :: "sync_world \<Rightarrow> bool \<Rightarrow> file_metadata list \<Rightarrow> int \<Rightarrow> int \<Rightarrow> sync_state \<Rightarrow> int \<times> int \<times> sync_state" where
  "sync_loop w force_reprocess [] q s st = (q, s, st)"
| "sync_loop w force_reprocess (fm # files) q s st =
     (case sync_file w force_reprocess fm st of
        (Queued, st') \<Rightarrow> sync_loop w force_reprocess files (q + 1) s st'
      | (Skipped, st') \<Rightarrow> sync_loop w force_reprocess files q (s + 1) st')"

definition manual_sync :: "sync_world \<Rightarrow> bool \<Rightarrow> file_metadata list \<Rightarrow> sync_state \<Rightarrow> SyncResponse \<times> sync_state" where
  "manual_sync w force_reprocess files st =
     (case sync_loop w force_reprocess files 0 0 st of
        (q, s, st') \<Rightarrow>
          (\<lparr> status = ''success'', files_queued = q, files_skipped = s,
             message_text = ''Queued '' @ str_int q @ '' files for processing, skipped '' @ str_int s @ '' files'' \<rparr>,
           st'))"


section \<open>Reading a run of the worker\<close>

text \<open>
  Names for what the properties below speak about: the file id a message carries; the
  record of a file in a database; whether processing of a message gets as far as marking
  the record \<open>processing\<close> (the body parses, the required fields are there, the update
  does not raise and matches a record); whether the run gets as far as chunking
  (temporary file, download, conversion and markdown upload succeed); and the documents
  the inner block then prepares for insertion.
\<close>

definition file_id_of :: "message \<Rightarrow> string" where
  "file_id_of msg = (case body msg of None \<Rightarrow> [] | Some d \<Rightarrow> the_str (msg_file_id d))"

definition record_of :: "database \<Rightarrow> string \<Rightarrow> file_record option" where
  "record_of db fid = find_one_by_id fid (dropbox_files db)"

definition entered :: "world \<Rightarrow> message \<Rightarrow> database \<Rightarrow> bool" where
  "entered w msg db =
     (case body msg of
        None \<Rightarrow> False
      | Some d \<Rightarrow> required_fields d \<and> db_set_processing w = DbOk
                  \<and> matched_count (the_str (msg_file_id d)) (dropbox_files db) \<noteq> 0)"

definition reaches_chunking :: "WorkerConfig \<Rightarrow> world \<Rightarrow> bool" where
  "reaches_chunking cfg w =
     (named_temporary_file w = OsOk
      \<and> download_ok cfg (download_attempt w) \<and> truthy (convert_to_markdown w)
      \<and> truthy (upload_markdown_to_blob w))"

definition chunks_of :: "WorkerConfig \<Rightarrow> world \<Rightarrow> chunk list" where
  "chunks_of cfg w = chunk_markdown cfg w (the_str (convert_to_markdown w))"

definition document_chunks_of :: "WorkerConfig \<Rightarrow> world \<Rightarrow> string \<Rightarrow> doc_chunk list" where
  "document_chunks_of cfg w fid =
     prepare_document_chunks fid (utcnow w) (generate_embeddings w (chunks_of cfg w))"

text \<open>The exception raised while persisting, if any: by \<open>insert_many\<close> when there are
  documents to insert, otherwise by the completion update.\<close>

definition persistence_error :: "world \<Rightarrow> doc_chunk list \<Rightarrow> string option" where
  "persistence_error w docs =
     (case (if docs = [] then InsertOk else db_insert_many w) of
        InsertRaises k e \<Rightarrow> Some e
      | InsertOk \<Rightarrow> (case db_set_completed w of DbRaises e \<Rightarrow> Some e | DbOk \<Rightarrow> None))"

text \<open>The database right after the update that marks the record \<open>processing\<close>.\<close>

definition marked_processing :: "world \<Rightarrow> message \<Rightarrow> database \<Rightarrow> database" where
  "marked_processing w msg db =
     db\<lparr> dropbox_files :=
          update_one_by_id (file_id_of msg) (set_processing (utcnow w)) (dropbox_files db) \<rparr>"


section \<open>Concrete configurations, services and messages\<close>

text \<open>A delay base below one; downloads that always raise; a download that succeeds at
  the third attempt.\<close>

definition half_base_config :: WorkerConfig where
  "half_base_config = default_config\<lparr> retry_delay_base := 1 / 2 \<rparr>"

definition never_downloads :: "nat \<Rightarrow> bool" where
  "never_downloads attempt = False"

definition third_time_lucky :: "nat \<Rightarrow> bool" where
  "third_time_lucky attempt = (2 \<le> attempt)"

text \<open>
  A database with one pending file record \<open>f1\<close> (it has no \<open>processing_metadata\<close> yet,
  as the records written by \<open>test-file-processing.py\<close>) and no chunks, a well-formed message for
  it on its first delivery, and services that all answer: the splitter returns two
  pieces, the embedding service one vector for each text it is given.
\<close>

definition file_1 :: file_record where
  "file_1 = \<lparr> dropbox_path = ''/docs/a.pdf'', dropbox_file_id = ''id:a'', dropbox_rev = None,
              filename = ''a.pdf'', file_type = ''pdf'', blob_url = ''https://blob/a.pdf'',
              file_hash = ''h1'', file_size = 10240, user_id = ''system'',
              processing_status = ''pending'', chunk_count = 0, created_at = 1, updated_at = 1,
              dropbox_created_at = Some 1, dropbox_modified_at = Some 1,
              metadata_folder = ''/docs'', metadata_content_hash = Some ''h1'',
              markdown_blob_url = None, attempts = None, last_error = None \<rparr>"

definition db_1 :: database where
  "db_1 = \<lparr> dropbox_files = [(''f1'', file_1)], dropbox_chunks = [] \<rparr>"

definition data_1 :: message_data where
  "data_1 = \<lparr> msg_message_type = ''dropbox_file'', msg_file_id = Some ''f1'',
              msg_dropbox_path = ''/docs/a.pdf'', msg_dropbox_file_id = ''id:a'',
              msg_blob_url = Some ''https://blob/a.pdf'', msg_filename = Some ''a.pdf'',
              msg_file_type = Some ''pdf'', msg_user_id = ''system'', msg_timestamp = 1 \<rparr>"

definition msg_1 :: message where
  "msg_1 = \<lparr> body = Some data_1, delivery_count = Some 1 \<rparr>"

definition two_pieces :: "int \<Rightarrow> int \<Rightarrow> string list \<Rightarrow> string \<Rightarrow> string list option" where
  "two_pieces csize coverlap seps text = Some [''alpha'', ''beta'']"

definition unit_vectors :: "string list \<Rightarrow> real list list option" where
  "unit_vectors texts = Some (map (\<lambda>t. [1]) texts)"

definition first_try :: "nat \<Rightarrow> bool" where
  "first_try attempt = True"

definition good_world :: world where
  "good_world = \<lparr> db_set_processing = DbOk, named_temporary_file = OsOk,
                  download_attempt = first_try,
                  convert_to_markdown = Some ''alpha beta'',
                  upload_markdown_to_blob = Some ''https://blob/markdown/f1.md'',
                  encoding = None, text_splitter = two_pieces, openai_client = True,
                  embeddings_create = unit_vectors, db_insert_many = InsertOk,
                  db_set_completed = DbOk, db_set_failed = DbOk, utcnow = 2 \<rparr>"

text \<open>A message whose body does not parse, on its third delivery; a receiver whose
  calls all return.\<close>

definition garbled_msg :: message where
  "garbled_msg = \<lparr> body = None, delivery_count = Some 3 \<rparr>"

definition calls_return :: "receiver_call \<Rightarrow> call_result" where
  "calls_return c = Done"

text \<open>A splitter that raises and one that returns no piece; an embedding request that
  raises; a completion update that raises; a message without \<open>filename\<close>.\<close>

definition splitter_raises :: "int \<Rightarrow> int \<Rightarrow> string list \<Rightarrow> string \<Rightarrow> string list option" where
  "splitter_raises csize coverlap seps text = None"

definition no_pieces :: "int \<Rightarrow> int \<Rightarrow> string list \<Rightarrow> string \<Rightarrow> string list option" where
  "no_pieces csize coverlap seps text = Some []"

definition splitter_raises_world :: world where
  "splitter_raises_world = good_world\<lparr> text_splitter := splitter_raises \<rparr>"

definition embedding_down :: "string list \<Rightarrow> real list list option" where
  "embedding_down texts = None"

definition embedding_down_world :: world where
  "embedding_down_world = good_world\<lparr> embeddings_create := embedding_down \<rparr>"

definition completion_fails_world :: world where
  "completion_fails_world = good_world\<lparr> db_set_completed := DbRaises ''connection reset'' \<rparr>"

definition nameless_msg :: message where
  "nameless_msg = \<lparr> body = Some (data_1\<lparr> msg_filename := None \<rparr>), delivery_count = Some 1 \<rparr>"

text \<open>The same message on its second delivery.\<close>

definition msg_1_again :: message where
  "msg_1_again = \<lparr> body = Some data_1, delivery_count = Some 2 \<rparr>"

text \<open>
  For the sync route: the listing entry of a PDF of 10 KB at \<open>/docs/a.pdf\<close>, services
  that all answer, and a state with no file record, no blob and an empty queue. Then
  the state in which the file has its record \<open>f1\<close>, a listing entry that reports a later
  modification time with the same content hash, and the state in which the record is
  \<open>completed\<close> with a listing entry that reports a later modification time and another
  content hash.
\<close>

definition a_pdf :: file_metadata where
  "a_pdf = \<lparr> fm_id = ''id:a'', fm_name = ''a.pdf'', path_display = ''/docs/a.pdf'',
             fm_size = 10240, modified = Some 1, server_modified = Some 1,
             fm_rev = Some ''r1'', content_hash = Some ''h1'' \<rparr>"

definition download_bytes :: "string \<Rightarrow> string option" where
  "download_bytes path = Some ''%PDF''"

definition digest_d1 :: "string \<Rightarrow> string" where
  "digest_d1 file_content = ''d1''"

definition never_raises :: "string \<Rightarrow> bool" where
  "never_raises name = False"

definition url_of_blob :: "string \<Rightarrow> string" where
  "url_of_blob blob_name = ''https://blob/'' @ blob_name"

definition db_never_raises :: "db_call \<Rightarrow> string \<Rightarrow> bool" where
  "db_never_raises call i = False"

definition object_id_f1 :: "string \<Rightarrow> string" where
  "object_id_f1 i = ''f1''"

definition always_sent :: "string \<Rightarrow> bool" where
  "always_sent oid = True"

definition sync_services :: sync_world where
  "sync_services = \<lparr> dropbox_download = download_bytes, sha256_hexdigest = digest_d1,
                     blob_upload_raises = never_raises, blob_client_url = url_of_blob,
                     db_raises = db_never_raises, new_object_id = object_id_f1,
                     queue_send_ok = always_sent, sync_utcnow = 1 \<rparr>"

definition empty_state :: sync_state where
  "empty_state = \<lparr> sync_db = \<lparr> dropbox_files = [], dropbox_chunks = [] \<rparr>,
                   blobs = [], queue = [], downloaded = [] \<rparr>"

definition touched_listing :: file_metadata where
  "touched_listing = a_pdf\<lparr> server_modified := Some 2 \<rparr>"

text \<open>The database left by the run in which the completion update raises.\<close>

definition db_after_failed_run :: database where
  "db_after_failed_run = snd (process_dropbox_file default_config completion_fails_world msg_1 db_1)"

definition completed_record :: file_record where
  "completed_record = file_1\<lparr> processing_status := ''completed'', chunk_count := 2,
                               markdown_blob_url := Some ''https://blob/markdown/f1.md'' \<rparr>"

definition completed_state :: sync_state where
  "completed_state = \<lparr> sync_db = \<lparr> dropbox_files = [(''f1'', completed_record)], dropbox_chunks = [] \<rparr>,
                       blobs = [], queue = [], downloaded = [] \<rparr>"

definition changed_listing :: file_metadata where
  "changed_listing = a_pdf\<lparr> server_modified := Some 2, content_hash := Some ''h2'' \<rparr>"

text \<open>Services of the worker whose completion update and failure update both raise.\<close>

definition updates_fail_world :: world where
  "updates_fail_world = good_world\<lparr> db_set_completed := DbRaises ''connection reset'',
                                      db_set_failed := DbRaises ''connection reset'' \<rparr>"


section \<open>Properties of the download retry\<close>

text \<open>
  The loop invariant: entering the iteration \<open>attempt\<close> with \<open>attempt\<close> sleeps done, one
  after each earlier failed call, the loop ends with one sleep less than calls, the
  \<open>n\<close>-th sleep lasting \<open>base ^ n\<close>.
\<close>

lemma retry_loop_shape:
  "attempt + Suc remaining = nat (max_retries cfg) \<Longrightarrow>
   \<forall>n < attempt. \<not> dl n \<Longrightarrow>
   retry_loop cfg dl (Suc remaining) attempt (map (\<lambda>n. retry_delay_base cfg ^ n) [0..<attempt]) = (r, sl, a) \<Longrightarrow>
   sl = map (\<lambda>n. retry_delay_base cfg ^ n) [0..<a - 1] \<and> attempt < a \<and> a \<le> nat (max_retries cfg)
   \<and> (\<forall>n < a - 1. \<not> dl n) \<and> (r \<longleftrightarrow> dl (a - 1)) \<and> (\<not> r \<longrightarrow> a = nat (max_retries cfg))"
proof (induction remaining arbitrary: attempt)
  case 0
  from 0(1) have nlt: "\<not> int attempt < max_retries cfg - 1" by linarith
  show ?case
  proof (cases "dl attempt")
    case True
    with 0 show ?thesis by auto
  next
    case False
    with 0 nlt show ?thesis by auto
  qed
next
  case (Suc remaining)
  show ?case
  proof (cases "dl attempt")
    case True
    with Suc.prems show ?thesis by auto
  next
    case False
    from Suc.prems(1) have lt: "int attempt < max_retries cfg - 1" by linarith
    have nd: "\<forall>n < Suc attempt. \<not> dl n" using Suc.prems(2) False by (auto simp: less_Suc_eq)
    from Suc.prems(3) False lt
    have "retry_loop cfg dl (Suc remaining) (Suc attempt)
            (map (\<lambda>n. retry_delay_base cfg ^ n) [0..<Suc attempt]) = (r, sl, a)"
      by simp
    moreover have "Suc attempt + Suc remaining = nat (max_retries cfg)"
      using Suc.prems(1) by simp
    ultimately have ih: "sl = map (\<lambda>n. retry_delay_base cfg ^ n) [0..<a - 1] \<and> Suc attempt < a
        \<and> a \<le> nat (max_retries cfg) \<and> (\<forall>n < a - 1. \<not> dl n) \<and> (r \<longleftrightarrow> dl (a - 1))
        \<and> (\<not> r \<longrightarrow> a = nat (max_retries cfg))"
      using nd by (rule Suc.IH[rotated 2])
    then have "attempt < a" by linarith
    with ih show ?thesis by blast
  qed
qed

lemma download_file_with_retry_shape:
  assumes "download_file_with_retry cfg dl = (r, sl, a)"
  shows "sl = map (\<lambda>n. retry_delay_base cfg ^ n) [0..<a - 1] \<and> a \<le> nat (max_retries cfg)
         \<and> (\<forall>n < a - 1. \<not> dl n) \<and> (r \<longrightarrow> 0 < a \<and> dl (a - 1))
         \<and> (\<not> r \<longrightarrow> a = nat (max_retries cfg) \<and> (\<forall>n < a. \<not> dl n))"
proof (cases "nat (max_retries cfg)")
  case 0
  with assms show ?thesis by (simp add: download_file_with_retry_def)
next
  case (Suc k)
  with assms have "retry_loop cfg dl (Suc k) 0 (map (\<lambda>n. retry_delay_base cfg ^ n) [0..<0]) = (r, sl, a)"
    by (simp add: download_file_with_retry_def)
  moreover have "0 + Suc k = nat (max_retries cfg)" using Suc by simp
  moreover have "\<forall>n < (0::nat). \<not> dl n" by simp
  ultimately have *: "sl = map (\<lambda>n. retry_delay_base cfg ^ n) [0..<a - 1] \<and> 0 < a
      \<and> a \<le> nat (max_retries cfg) \<and> (\<forall>n < a - 1. \<not> dl n) \<and> (r \<longleftrightarrow> dl (a - 1))
      \<and> (\<not> r \<longrightarrow> a = nat (max_retries cfg))"
    by (rule retry_loop_shape[rotated 2])
  have "\<forall>n < a. \<not> dl n" if "\<not> r"
  proof (intro allI impI)
    fix n assume "n < a"
    then have "n < a - 1 \<or> n = a - 1" by linarith
    with * that show "\<not> dl n" by blast
  qed
  with * show ?thesis by blast
qed

lemma sorted_powers: "1 \<le> (b::real) \<Longrightarrow> sorted (map (\<lambda>n. b ^ n) [0..<m])"
  by (auto simp: sorted_iff_nth_mono intro: power_increasing)

text \<open>
  Claim C9, as the code has it. The calls of \<open>_download_file\<close> number at most
  \<open>MAX_RETRIES\<close>; there is one sleep less than calls; the sleep that follows the failed
  call with loop index \<open>n\<close> (counted from 0) lasts \<open>RETRY_DELAY_BASE ^ n\<close>; and when
  \<open>RETRY_DELAY_BASE\<close> is at least 1 the delays are non-decreasing.
\<close>

theorem download_retry_backoff:
  "download_attempts cfg dl \<le> nat (max_retries cfg)
   \<and> length (download_delays cfg dl) = download_attempts cfg dl - 1
   \<and> (\<forall>n < length (download_delays cfg dl).
         \<not> dl n \<and> download_delays cfg dl ! n = retry_delay_base cfg ^ n)
   \<and> (1 \<le> retry_delay_base cfg \<longrightarrow> sorted (download_delays cfg dl))"
proof -
  obtain r sl a where run: "download_file_with_retry cfg dl = (r, sl, a)"
    by (cases "download_file_with_retry cfg dl") auto
  from download_file_with_retry_shape[OF run]
  have sl: "sl = map (\<lambda>n. retry_delay_base cfg ^ n) [0..<a - 1]"
    and a: "a \<le> nat (max_retries cfg)" and nd: "\<forall>n < a - 1. \<not> dl n"
    by blast+
  have d: "download_delays cfg dl = sl" and at: "download_attempts cfg dl = a"
    using run by (simp_all add: download_delays_def download_attempts_def)
  have len: "length sl = a - 1" using sl by simp
  have nth: "\<forall>n < length sl. \<not> dl n \<and> sl ! n = retry_delay_base cfg ^ n"
    using sl nd by auto
  have srt: "1 \<le> retry_delay_base cfg \<longrightarrow> sorted sl"
    using sl sorted_powers by blast
  show ?thesis unfolding d at using a len nth srt by blast
qed

theorem download_retry_backoff_witness:
  "1 \<le> retry_delay_base default_config
   \<and> download_delays default_config third_time_lucky = [1, 2]
   \<and> download_attempts default_config third_time_lucky = 3
   \<and> download_delays default_config third_time_lucky ! 1 = retry_delay_base default_config ^ 1
   \<and> sorted (download_delays default_config third_time_lucky)"
proof -
  have run: "download_file_with_retry default_config third_time_lucky = (True, [1, 2], 3)"
    by (simp add: download_file_with_retry_def default_config_def third_time_lucky_def numeral_3_eq_3)
  have d: "download_delays default_config third_time_lucky = [1, 2]"
    and a: "download_attempts default_config third_time_lucky = 3"
    using run by (simp_all add: download_delays_def download_attempts_def)
  have b: "1 \<le> retry_delay_base default_config" by (simp add: default_config_def)
  have one: "(1::nat) < length (download_delays default_config third_time_lucky)" using d by simp
  from download_retry_backoff[of default_config third_time_lucky] b one
  have "sorted (download_delays default_config third_time_lucky)"
    and "download_delays default_config third_time_lucky ! 1 = retry_delay_base default_config ^ 1"
    by blast+
  with b d a show ?thesis by blast
qed

text \<open>
  Claim C9 as stated fails: with \<open>RETRY_DELAY_BASE = 0.5\<close> and three failing attempts
  the two delays are 1 and 0.5, which decrease.
\<close>

theorem download_delays_decrease_counterexample:
  "download_delays half_base_config never_downloads = [1, 1 / 2]
   \<and> \<not> sorted (download_delays half_base_config never_downloads)"
proof -
  have "download_file_with_retry half_base_config never_downloads = (False, [1, 1 / 2], 3)"
    by (simp add: download_file_with_retry_def half_base_config_def default_config_def
                  never_downloads_def numeral_3_eq_3)
  then have d: "download_delays half_base_config never_downloads = [1, 1 / 2]"
    by (simp only: download_delays_def fst_conv snd_conv)
  have "\<not> sorted [1::real, 1 / 2]"
  proof
    assume "sorted [1::real, 1 / 2]"
    then have "(1::real) \<le> 1 / 2" by (simp only: sorted2)
    then show False by simp
  qed
  with d show ?thesis by (simp only: simp_thms)
qed


section \<open>How a run of process_dropbox_file unfolds\<close>

lemma generate_embeddings_Nil: "generate_embeddings w [] = []"
  by (simp add: generate_embeddings_def)

lemma find_update_one:
  "find_one_by_id k (update_one_by_id k' f files) =
     (if k = k' then map_option f (find_one_by_id k files) else find_one_by_id k files)"
  by (induction files) auto

lemma record_of_update:
  "record_of (db\<lparr> dropbox_files := update_one_by_id k' f (dropbox_files db) \<rparr>) k =
     (if k = k' then map_option f (record_of db k) else record_of db k)"
  by (simp add: record_of_def find_update_one)

lemma record_of_chunks:
  "record_of (db\<lparr> dropbox_chunks := cs \<rparr>) k = record_of db k"
  by (simp add: record_of_def)

text \<open>The early exits: nothing is written.\<close>

lemma process_not_entered:
  "\<not> entered w msg db \<Longrightarrow> process_dropbox_file cfg w msg db = (False, db)"
  by (auto simp: entered_def process_dropbox_file_def Let_def split: option.splits db_result.splits)

text \<open>Past the early exits the result is that of the inner block, with the failure
  handler applied to an exception.\<close>

lemma process_entered:
  assumes "entered w msg db"
  shows "process_dropbox_file cfg w msg db =
     (case pipeline cfg w (file_id_of msg)
             (db\<lparr> dropbox_files :=
                   update_one_by_id (file_id_of msg) (set_processing (utcnow w)) (dropbox_files db) \<rparr>) of
        (Inr u, db2) \<Rightarrow> (True, db2)
      | (Inl e, db2) \<Rightarrow> (False, record_failure w (file_id_of msg) e db2))"
proof -
  from assms obtain d where d: "body msg = Some d" "required_fields d" "db_set_processing w = DbOk"
    "matched_count (the_str (msg_file_id d)) (dropbox_files db) \<noteq> 0"
    by (auto simp: entered_def split: option.splits)
  then show ?thesis
    by (simp add: process_dropbox_file_def file_id_of_def Let_def split: prod.splits sum.splits)
qed

lemma entered_record:
  assumes "entered w msg db"
  shows "\<exists>r. record_of db (file_id_of msg) = Some r"
  using assms
  by (auto simp: entered_def file_id_of_def record_of_def matched_count_def split: option.splits)

lemma pipeline_before_chunking:
  assumes "\<not> reaches_chunking cfg w"
  shows "\<exists>e. pipeline cfg w fid db = (Inl e, db)"
  using assms by (auto simp: pipeline_def reaches_chunking_def split: os_result.splits)

text \<open>From chunking on, the two branches of the inner block (no chunks, some chunks)
  are one: insert the prepared documents if there are any, then write completion.\<close>

lemma pipeline_persist:
  assumes "reaches_chunking cfg w"
  shows "pipeline cfg w fid db =
     (case insert_chunks w (document_chunks_of cfg w fid) db of
        (Inl e, db') \<Rightarrow> (Inl e, db')
      | (Inr u, db') \<Rightarrow> complete_file w fid (the_str (upload_markdown_to_blob w))
                           (length (document_chunks_of cfg w fid)) db')"
proof (cases "chunks_of cfg w = []")
  case True
  then have "document_chunks_of cfg w fid = []"
    by (simp add: document_chunks_of_def generate_embeddings_Nil)
  with True assms show ?thesis
    by (simp add: pipeline_def reaches_chunking_def chunks_of_def insert_chunks_def Let_def)
next
  case False
  with assms show ?thesis
    by (simp add: pipeline_def reaches_chunking_def chunks_of_def document_chunks_of_def Let_def
             split: prod.splits sum.splits)
qed

lemma pipeline_persistence_ok:
  assumes "reaches_chunking cfg w" and "persistence_error w (document_chunks_of cfg w fid) = None"
  shows "pipeline cfg w fid db =
     (Inr (), \<lparr> dropbox_files = update_one_by_id fid
                  (set_completed (the_str (upload_markdown_to_blob w))
                     (length (document_chunks_of cfg w fid)) (utcnow w)) (dropbox_files db),
               dropbox_chunks = dropbox_chunks db @ document_chunks_of cfg w fid \<rparr>)"
proof (cases "document_chunks_of cfg w fid = []")
  case True
  with assms(2) have "db_set_completed w = DbOk"
    by (simp add: persistence_error_def split: db_result.splits)
  with True show ?thesis
    by (simp add: pipeline_persist[OF assms(1)] insert_chunks_def complete_file_def)
next
  case False
  with assms(2) have "db_insert_many w = InsertOk" "db_set_completed w = DbOk"
    by (simp_all add: persistence_error_def split: insert_result.splits db_result.splits)
  with False show ?thesis
    by (simp add: pipeline_persist[OF assms(1)] insert_chunks_def complete_file_def)
qed

lemma pipeline_persistence_error:
  assumes "reaches_chunking cfg w" and "persistence_error w (document_chunks_of cfg w fid) = Some e"
  shows "\<exists>cs. pipeline cfg w fid db = (Inl e, db\<lparr> dropbox_chunks := cs \<rparr>)"
proof (cases "document_chunks_of cfg w fid = [] \<or> db_insert_many w = InsertOk")
  case True
  with assms(2) have c: "db_set_completed w = DbRaises e"
    by (auto simp: persistence_error_def split: db_result.splits if_splits)
  from True show ?thesis
  proof
    assume "document_chunks_of cfg w fid = []"
    with c have "pipeline cfg w fid db = (Inl e, db\<lparr> dropbox_chunks := dropbox_chunks db \<rparr>)"
      by (simp add: pipeline_persist[OF assms(1)] insert_chunks_def complete_file_def)
    then show ?thesis ..
  next
    assume ok: "db_insert_many w = InsertOk"
    show ?thesis
    proof (cases "document_chunks_of cfg w fid = []")
      case True
      with c have "pipeline cfg w fid db = (Inl e, db\<lparr> dropbox_chunks := dropbox_chunks db \<rparr>)"
        by (simp add: pipeline_persist[OF assms(1)] insert_chunks_def complete_file_def)
      then show ?thesis ..
    next
      case False
      with c ok have "pipeline cfg w fid db =
          (Inl e, db\<lparr> dropbox_chunks := dropbox_chunks db @ document_chunks_of cfg w fid \<rparr>)"
        by (simp add: pipeline_persist[OF assms(1)] insert_chunks_def complete_file_def)
      then show ?thesis ..
    qed
  qed
next
  case False
  then obtain k e' where i: "document_chunks_of cfg w fid \<noteq> []" "db_insert_many w = InsertRaises k e'"
    by (cases "db_insert_many w") auto
  with assms(2) have "e' = e" by (simp add: persistence_error_def)
  with i have "pipeline cfg w fid db =
      (Inl e, db\<lparr> dropbox_chunks := dropbox_chunks db @ take k (document_chunks_of cfg w fid) \<rparr>)"
    by (simp add: pipeline_persist[OF assms(1)] insert_chunks_def)
  then show ?thesis ..
qed

text \<open>A run that goes through: the record is completed and the documents are appended.\<close>

lemma process_completes:
  assumes "entered w msg db" and "reaches_chunking cfg w"
      and "persistence_error w (document_chunks_of cfg w (file_id_of msg)) = None"
  shows "process_dropbox_file cfg w msg db =
     (True, \<lparr> dropbox_files = update_one_by_id (file_id_of msg)
                  (set_completed (the_str (upload_markdown_to_blob w))
                     (length (document_chunks_of cfg w (file_id_of msg))) (utcnow w))
                  (update_one_by_id (file_id_of msg) (set_processing (utcnow w)) (dropbox_files db)),
              dropbox_chunks = dropbox_chunks db @ document_chunks_of cfg w (file_id_of msg) \<rparr>)"
  by (simp add: process_entered[OF assms(1)] pipeline_persistence_ok[OF assms(2,3)])

lemma process_completes_record:
  assumes "entered w msg db" and "reaches_chunking cfg w"
      and "persistence_error w (document_chunks_of cfg w (file_id_of msg)) = None"
  shows "fst (process_dropbox_file cfg w msg db)"
    and "map_option processing_status
           (record_of (snd (process_dropbox_file cfg w msg db)) (file_id_of msg)) = Some ''completed''"
    and "map_option chunk_count
           (record_of (snd (process_dropbox_file cfg w msg db)) (file_id_of msg))
         = Some (length (document_chunks_of cfg w (file_id_of msg)))"
    and "map_option markdown_blob_url
           (record_of (snd (process_dropbox_file cfg w msg db)) (file_id_of msg))
         = Some (Some (the_str (upload_markdown_to_blob w)))"
    and "dropbox_chunks (snd (process_dropbox_file cfg w msg db))
         = dropbox_chunks db @ document_chunks_of cfg w (file_id_of msg)"
proof -
  from entered_record[OF assms(1)] obtain r where r: "record_of db (file_id_of msg) = Some r" ..
  then have f: "find_one_by_id (file_id_of msg) (dropbox_files db) = Some r"
    by (simp add: record_of_def)
  note p = process_completes[OF assms]
  show "fst (process_dropbox_file cfg w msg db)" by (simp add: p)
  show "map_option processing_status
           (record_of (snd (process_dropbox_file cfg w msg db)) (file_id_of msg)) = Some ''completed''"
    by (simp add: p record_of_def find_update_one f set_completed_def)
  show "map_option chunk_count
           (record_of (snd (process_dropbox_file cfg w msg db)) (file_id_of msg))
         = Some (length (document_chunks_of cfg w (file_id_of msg)))"
    by (simp add: p record_of_def find_update_one f set_completed_def)
  show "map_option markdown_blob_url
           (record_of (snd (process_dropbox_file cfg w msg db)) (file_id_of msg))
         = Some (Some (the_str (upload_markdown_to_blob w)))"
    by (simp add: p record_of_def find_update_one f set_completed_def)
  show "dropbox_chunks (snd (process_dropbox_file cfg w msg db))
         = dropbox_chunks db @ document_chunks_of cfg w (file_id_of msg)"
    by (simp add: p)
qed

text \<open>A run in which the inner block raises: the handler's write decides what the
  record shows.\<close>

lemma process_handles_exception:
  assumes "entered w msg db"
      and "pipeline cfg w (file_id_of msg)
             (db\<lparr> dropbox_files :=
                   update_one_by_id (file_id_of msg) (set_processing (utcnow w)) (dropbox_files db) \<rparr>)
           = (Inl e, db2)"
      and "\<exists>cs. db2 = db\<lparr> dropbox_files :=
                   update_one_by_id (file_id_of msg) (set_processing (utcnow w)) (dropbox_files db),
                   dropbox_chunks := cs \<rparr>"
  shows "\<not> fst (process_dropbox_file cfg w msg db)"
    and "map_option processing_status
           (record_of (snd (process_dropbox_file cfg w msg db)) (file_id_of msg))
         = Some (if db_set_failed w = DbOk then ''failed'' else ''processing'')"
    and "map_option last_error
           (record_of (snd (process_dropbox_file cfg w msg db)) (file_id_of msg))
         = (if db_set_failed w = DbOk then Some (Some e)
            else map_option last_error (record_of db (file_id_of msg)))"
proof -
  from entered_record[OF assms(1)] obtain r where r: "record_of db (file_id_of msg) = Some r" ..
  then have f: "find_one_by_id (file_id_of msg) (dropbox_files db) = Some r"
    by (simp add: record_of_def)
  from assms(3) obtain cs where db2: "db2 = db\<lparr> dropbox_files :=
      update_one_by_id (file_id_of msg) (set_processing (utcnow w)) (dropbox_files db),
      dropbox_chunks := cs \<rparr>" ..
  have p: "process_dropbox_file cfg w msg db = (False, record_failure w (file_id_of msg) e db2)"
    by (simp add: process_entered[OF assms(1)] assms(2))
  show "\<not> fst (process_dropbox_file cfg w msg db)" by (simp add: p)
  show "map_option processing_status
           (record_of (snd (process_dropbox_file cfg w msg db)) (file_id_of msg))
         = Some (if db_set_failed w = DbOk then ''failed'' else ''processing'')"
    by (cases "db_set_failed w")
       (simp_all add: p db2 record_failure_def record_of_def find_update_one f
                      set_failed_def set_processing_def)
  show "map_option last_error
           (record_of (snd (process_dropbox_file cfg w msg db)) (file_id_of msg))
         = (if db_set_failed w = DbOk then Some (Some e)
            else map_option last_error (record_of db (file_id_of msg)))"
    by (cases "db_set_failed w")
       (simp_all add: p db2 record_failure_def record_of_def find_update_one f
                      set_failed_def set_processing_def)
qed


section \<open>The concrete run\<close>

text \<open>Facts about the healthy services, the message and the database defined above,
  shared by the examples that follow.\<close>

lemma file_id_of_msg_1: "file_id_of msg_1 = ''f1''"
  by (simp add: file_id_of_def msg_1_def data_1_def the_str_def)

lemma record_of_db_1: "record_of db_1 ''f1'' = Some file_1"
  by (simp add: record_of_def db_1_def)

lemma download_ok_first_try: "download_ok default_config first_try"
  by (simp add: download_ok_def download_file_with_retry_def default_config_def first_try_def
                numeral_3_eq_3)

lemma entered_msg_1:
  "db_set_processing w = DbOk \<Longrightarrow> entered w msg_1 db_1"
  by (simp add: entered_def msg_1_def data_1_def required_fields_def truthy_def the_str_def
                db_1_def matched_count_def)

lemma reaches_chunking_good:
  assumes "named_temporary_file w = OsOk" "download_attempt w = first_try"
          "convert_to_markdown w = Some ''alpha beta''"
          "upload_markdown_to_blob w = Some ''https://blob/markdown/f1.md''"
  shows "reaches_chunking default_config w"
  using assms by (simp add: reaches_chunking_def download_ok_first_try truthy_def)

lemma chunks_of_two_pieces:
  assumes "text_splitter w = two_pieces" "encoding w = None"
  shows "chunks_of default_config w =
     [\<lparr> chunk_index = 0, content = ''alpha'',
         metadata = \<lparr> chunk_type = ''text'', char_count = 5, token_count = 1 \<rparr>, embedding = None \<rparr>,
      \<lparr> chunk_index = 1, content = ''beta'',
         metadata = \<lparr> chunk_type = ''text'', char_count = 4, token_count = 1 \<rparr>, embedding = None \<rparr>]"
  using assms
  by (simp add: chunks_of_def chunk_markdown_def two_pieces_def strip_def is_space_def
                classify_def startswith_def count_tokens_def)


section \<open>Properties of process_dropbox_file\<close>

lemma make_chunks_no_embedding: "c \<in> set (make_chunks enc idx pieces) \<Longrightarrow> embedding c = None"
  by (induction pieces arbitrary: idx) (auto simp: Let_def split: if_splits)

lemma prepare_without_embeddings:
  "(\<And>c. c \<in> set cs \<Longrightarrow> embedding c = None) \<Longrightarrow> prepare_document_chunks fid now cs = []"
  by (induction cs) auto

lemma prepare_add_embeddings:
  "(\<And>c. c \<in> set cs \<Longrightarrow> embedding c = None) \<Longrightarrow>
   map doc_chunk_index (prepare_document_chunks fid now (add_embeddings cs data))
     = map chunk_index (take (length data) cs)"
proof (induction cs data rule: add_embeddings.induct)
  case (1 es)
  then show ?case by simp
next
  case (2 c cs)
  then have "prepare_document_chunks fid now (c # cs) = []"
    by (intro prepare_without_embeddings) auto
  then show ?case by simp
next
  case (3 c cs e es)
  then show ?case by simp
qed

lemma chunks_of_no_embedding: "c \<in> set (chunks_of cfg w) \<Longrightarrow> embedding c = None"
  by (auto simp: chunks_of_def chunk_markdown_def split: option.splits dest: make_chunks_no_embedding)

lemma pipeline_exception_shape:
  assumes "pipeline cfg w fid db = (Inl e, db2)"
  shows "\<exists>cs. db2 = db\<lparr> dropbox_chunks := cs \<rparr>"
proof (cases "reaches_chunking cfg w")
  case False
  from pipeline_before_chunking[OF False, of fid db] assms have "db2 = db" by auto
  then have "db2 = db\<lparr> dropbox_chunks := dropbox_chunks db \<rparr>" by simp
  then show ?thesis ..
next
  case True
  show ?thesis
  proof (cases "persistence_error w (document_chunks_of cfg w fid)")
    case None
    from pipeline_persistence_ok[OF True None, of db] assms show ?thesis by simp
  next
    case (Some e')
    from pipeline_persistence_error[OF True Some, of db] assms show ?thesis by auto
  qed
qed

text \<open>
  Claim C10. When the text splitter raises, \<open>chunk_markdown\<close> returns the empty list, and
  the run is the run of a document that the splitter cuts into no pieces. Where
  processing got as far as chunking and the completion update goes through, the record
  ends \<open>completed\<close> with \<open>chunk_count = 0\<close>, no chunk is inserted, and
  \<open>process_dropbox_file\<close> returns \<open>True\<close>.
\<close>

theorem splitter_exception_is_empty_document:
  assumes "entered w msg db" and "reaches_chunking cfg w"
      and "text_splitter w (chunk_size cfg * 4) (chunk_overlap cfg * 4) separators
             (the_str (convert_to_markdown w)) = None"
      and "db_set_completed w = DbOk"
  shows "chunk_markdown cfg w (the_str (convert_to_markdown w)) = []
       \<and> fst (process_dropbox_file cfg w msg db)
       \<and> map_option processing_status
            (record_of (snd (process_dropbox_file cfg w msg db)) (file_id_of msg)) = Some ''completed''
       \<and> map_option chunk_count
            (record_of (snd (process_dropbox_file cfg w msg db)) (file_id_of msg)) = Some 0
       \<and> dropbox_chunks (snd (process_dropbox_file cfg w msg db)) = dropbox_chunks db
       \<and> process_dropbox_file cfg w msg db
            = process_dropbox_file cfg (w\<lparr> text_splitter := no_pieces \<rparr>) msg db"
proof -
  let ?w' = "w\<lparr> text_splitter := no_pieces \<rparr>"
  have cm: "chunk_markdown cfg w (the_str (convert_to_markdown w)) = []"
    using assms(3) by (simp add: chunk_markdown_def)
  then have docs: "document_chunks_of cfg w (file_id_of msg) = []"
    by (simp add: document_chunks_of_def chunks_of_def generate_embeddings_Nil)
  then have pe: "persistence_error w (document_chunks_of cfg w (file_id_of msg)) = None"
    using assms(4) by (simp add: persistence_error_def)
  have docs': "document_chunks_of cfg ?w' (file_id_of msg) = []"
    by (simp add: document_chunks_of_def chunks_of_def chunk_markdown_def no_pieces_def
                  generate_embeddings_Nil)
  then have pe': "persistence_error ?w' (document_chunks_of cfg ?w' (file_id_of msg)) = None"
    using assms(4) by (simp add: persistence_error_def)
  have e': "entered ?w' msg db" using assms(1) by (simp add: entered_def split: option.splits)
  have r': "reaches_chunking cfg ?w'" using assms(2) by (simp add: reaches_chunking_def)
  note rec = process_completes_record[OF assms(1,2) pe]
  have same: "process_dropbox_file cfg w msg db = process_dropbox_file cfg ?w' msg db"
    by (simp add: process_completes[OF assms(1,2) pe] process_completes[OF e' r' pe'] docs docs')
  from cm rec(1) rec(2) rec(3) rec(5) same show ?thesis by (simp add: docs)
qed

theorem splitter_exception_is_empty_document_witness:
  "entered splitter_raises_world msg_1 db_1
   \<and> reaches_chunking default_config splitter_raises_world
   \<and> db_set_completed splitter_raises_world = DbOk
   \<and> chunk_markdown default_config splitter_raises_world ''alpha beta'' = []
   \<and> fst (process_dropbox_file default_config splitter_raises_world msg_1 db_1)
   \<and> map_option processing_status
        (record_of (snd (process_dropbox_file default_config splitter_raises_world msg_1 db_1)) ''f1'')
      = Some ''completed''
   \<and> map_option chunk_count
        (record_of (snd (process_dropbox_file default_config splitter_raises_world msg_1 db_1)) ''f1'')
      = Some 0"
proof -
  have e: "entered splitter_raises_world msg_1 db_1"
    by (rule entered_msg_1) (simp add: splitter_raises_world_def good_world_def)
  have r: "reaches_chunking default_config splitter_raises_world"
    by (rule reaches_chunking_good) (simp_all add: splitter_raises_world_def good_world_def)
  have s: "text_splitter splitter_raises_world (chunk_size default_config * 4)
             (chunk_overlap default_config * 4) separators
             (the_str (convert_to_markdown splitter_raises_world)) = None"
    by (simp add: splitter_raises_world_def splitter_raises_def)
  have c: "db_set_completed splitter_raises_world = DbOk"
    by (simp add: splitter_raises_world_def good_world_def)
  have m: "the_str (convert_to_markdown splitter_raises_world) = ''alpha beta''"
    by (simp add: splitter_raises_world_def good_world_def the_str_def)
  note t = splitter_exception_is_empty_document[OF e r s c, unfolded file_id_of_msg_1 m]
  from t e r c show ?thesis by blast
qed


text \<open>
  Claim C4, as the code has it. \<open>generate_embeddings\<close> catches the failure of the batch
  request and returns the chunks without embeddings; the caller then drops every chunk.
  So with a non-empty chunk list and a request that raises, nothing is inserted, the
  record is marked \<open>completed\<close> with \<open>chunk_count = 0\<close> and \<open>process_dropbox_file\<close>
  returns \<open>True\<close> (the completion update going through). When the response holds
  \<open>length data\<close> embeddings, the chunks persisted are the first \<open>length data\<close> chunks:
  those left without an embedding are dropped.
\<close>

theorem embedding_failure_drops_every_chunk:
  assumes "entered w msg db" and "reaches_chunking cfg w" and "chunks_of cfg w \<noteq> []"
      and "openai_client w" and "db_set_completed w = DbOk"
  shows "(embeddings_create w (map content (chunks_of cfg w)) = None \<longrightarrow>
            document_chunks_of cfg w (file_id_of msg) = []
          \<and> fst (process_dropbox_file cfg w msg db)
          \<and> map_option processing_status
               (record_of (snd (process_dropbox_file cfg w msg db)) (file_id_of msg)) = Some ''completed''
          \<and> map_option chunk_count
               (record_of (snd (process_dropbox_file cfg w msg db)) (file_id_of msg)) = Some 0
          \<and> dropbox_chunks (snd (process_dropbox_file cfg w msg db)) = dropbox_chunks db)
       \<and> (\<forall>data. embeddings_create w (map content (chunks_of cfg w)) = Some data \<longrightarrow>
            map doc_chunk_index (document_chunks_of cfg w (file_id_of msg))
              = map chunk_index (take (length data) (chunks_of cfg w)))"
proof (intro conjI impI allI)
  assume down: "embeddings_create w (map content (chunks_of cfg w)) = None"
  with assms(3,4) have "generate_embeddings w (chunks_of cfg w) = chunks_of cfg w"
    by (simp add: generate_embeddings_def)
  then show docs: "document_chunks_of cfg w (file_id_of msg) = []"
    by (simp add: document_chunks_of_def prepare_without_embeddings chunks_of_no_embedding)
  then have pe: "persistence_error w (document_chunks_of cfg w (file_id_of msg)) = None"
    using assms(5) by (simp add: persistence_error_def)
  note rec = process_completes_record[OF assms(1,2) pe]
  show "fst (process_dropbox_file cfg w msg db)" by (rule rec(1))
  show "map_option processing_status
          (record_of (snd (process_dropbox_file cfg w msg db)) (file_id_of msg)) = Some ''completed''"
    by (rule rec(2))
  show "map_option chunk_count
          (record_of (snd (process_dropbox_file cfg w msg db)) (file_id_of msg)) = Some 0"
    using rec(3) docs by simp
  show "dropbox_chunks (snd (process_dropbox_file cfg w msg db)) = dropbox_chunks db"
    using rec(5) docs by simp
next
  fix data
  assume "embeddings_create w (map content (chunks_of cfg w)) = Some data"
  with assms(3,4) have "generate_embeddings w (chunks_of cfg w) = add_embeddings (chunks_of cfg w) data"
    by (simp add: generate_embeddings_def)
  then show "map doc_chunk_index (document_chunks_of cfg w (file_id_of msg))
              = map chunk_index (take (length data) (chunks_of cfg w))"
    by (simp add: document_chunks_of_def prepare_add_embeddings chunks_of_no_embedding)
qed

lemma embedding_down_facts:
  shows "entered embedding_down_world msg_1 db_1"
    and "reaches_chunking default_config embedding_down_world"
    and "chunks_of default_config embedding_down_world \<noteq> []"
    and "openai_client embedding_down_world"
    and "db_set_completed embedding_down_world = DbOk"
    and "embeddings_create embedding_down_world
           (map content (chunks_of default_config embedding_down_world)) = None"
proof -
  show "entered embedding_down_world msg_1 db_1"
    by (rule entered_msg_1) (simp add: embedding_down_world_def good_world_def)
  show "reaches_chunking default_config embedding_down_world"
    by (rule reaches_chunking_good) (simp_all add: embedding_down_world_def good_world_def)
  have "chunks_of default_config embedding_down_world =
     [\<lparr> chunk_index = 0, content = ''alpha'',
         metadata = \<lparr> chunk_type = ''text'', char_count = 5, token_count = 1 \<rparr>, embedding = None \<rparr>,
      \<lparr> chunk_index = 1, content = ''beta'',
         metadata = \<lparr> chunk_type = ''text'', char_count = 4, token_count = 1 \<rparr>, embedding = None \<rparr>]"
    by (rule chunks_of_two_pieces) (simp_all add: embedding_down_world_def good_world_def)
  then show "chunks_of default_config embedding_down_world \<noteq> []" by simp
  show "openai_client embedding_down_world"
    by (simp add: embedding_down_world_def good_world_def)
  show "db_set_completed embedding_down_world = DbOk"
    by (simp add: embedding_down_world_def good_world_def)
  show "embeddings_create embedding_down_world
           (map content (chunks_of default_config embedding_down_world)) = None"
    by (simp add: embedding_down_world_def embedding_down_def)
qed

theorem embedding_failure_drops_every_chunk_witness:
  "entered embedding_down_world msg_1 db_1
   \<and> reaches_chunking default_config embedding_down_world
   \<and> chunks_of default_config embedding_down_world \<noteq> []
   \<and> openai_client embedding_down_world
   \<and> db_set_completed embedding_down_world = DbOk
   \<and> embeddings_create embedding_down_world
        (map content (chunks_of default_config embedding_down_world)) = None
   \<and> document_chunks_of default_config embedding_down_world ''f1'' = []
   \<and> map_option chunk_count
        (record_of (snd (process_dropbox_file default_config embedding_down_world msg_1 db_1)) ''f1'')
      = Some 0"
proof -
  note f = embedding_down_facts
  note t = embedding_failure_drops_every_chunk[OF f(1) f(2) f(3) f(4) f(5), unfolded file_id_of_msg_1]
  from t f show ?thesis by blast
qed

text \<open>
  Claim C4 as stated fails: with the embedding request raising for the whole batch,
  processing of the two-chunk document returns \<open>True\<close> and the record is \<open>completed\<close>.
\<close>

theorem embedding_failure_counterexample:
  "embeddings_create embedding_down_world
     (map content (chunks_of default_config embedding_down_world)) = None
   \<and> fst (process_dropbox_file default_config embedding_down_world msg_1 db_1)
   \<and> map_option processing_status
        (record_of (snd (process_dropbox_file default_config embedding_down_world msg_1 db_1)) ''f1'')
      = Some ''completed''"
proof -
  note f = embedding_down_facts
  have "generate_embeddings embedding_down_world (chunks_of default_config embedding_down_world)
          = chunks_of default_config embedding_down_world"
    using f(3) f(4) f(6) by (simp add: generate_embeddings_def)
  then have "document_chunks_of default_config embedding_down_world (file_id_of msg_1) = []"
    by (simp add: document_chunks_of_def prepare_without_embeddings chunks_of_no_embedding)
  then have pe: "persistence_error embedding_down_world
                   (document_chunks_of default_config embedding_down_world (file_id_of msg_1)) = None"
    using f(5) by (simp add: persistence_error_def)
  note rec = process_completes_record[OF f(1) f(2) pe, unfolded file_id_of_msg_1]
  from f(6) rec(1) rec(2) show ?thesis by blast
qed

text \<open>
  Claim C3, as the code has it. When \<open>insert_many\<close> or the completion update raises,
  \<open>process_dropbox_file\<close> returns \<open>False\<close> and the record is not marked \<open>completed\<close>: the
  handler sets \<open>processing_status\<close> to \<open>failed\<close> and \<open>last_error\<close> to the text of the
  exception. The status stays \<open>processing\<close> only if the handler's own update raises too.
\<close>

theorem persistence_error_marks_failed:
  assumes "entered w msg db" and "reaches_chunking cfg w"
      and "persistence_error w (document_chunks_of cfg w (file_id_of msg)) = Some e"
  shows "\<not> fst (process_dropbox_file cfg w msg db)
       \<and> map_option processing_status
            (record_of (snd (process_dropbox_file cfg w msg db)) (file_id_of msg))
          = Some (if db_set_failed w = DbOk then ''failed'' else ''processing'')
       \<and> map_option last_error
            (record_of (snd (process_dropbox_file cfg w msg db)) (file_id_of msg))
          = (if db_set_failed w = DbOk then Some (Some e)
             else map_option last_error (record_of db (file_id_of msg)))"
proof -
  from pipeline_persistence_error[OF assms(2,3)]
  obtain cs where p: "pipeline cfg w (file_id_of msg)
        (db\<lparr> dropbox_files :=
              update_one_by_id (file_id_of msg) (set_processing (utcnow w)) (dropbox_files db) \<rparr>)
      = (Inl e, db\<lparr> dropbox_files :=
              update_one_by_id (file_id_of msg) (set_processing (utcnow w)) (dropbox_files db),
              dropbox_chunks := cs \<rparr>)"
    by blast
  have "\<exists>cs'. db\<lparr> dropbox_files :=
              update_one_by_id (file_id_of msg) (set_processing (utcnow w)) (dropbox_files db),
              dropbox_chunks := cs \<rparr>
          = db\<lparr> dropbox_files :=
              update_one_by_id (file_id_of msg) (set_processing (utcnow w)) (dropbox_files db),
              dropbox_chunks := cs' \<rparr>"
    by blast
  from process_handles_exception[OF assms(1) p this] show ?thesis by blast
qed

lemma completion_fails_facts:
  shows "entered completion_fails_world msg_1 db_1"
    and "reaches_chunking default_config completion_fails_world"
    and "persistence_error completion_fails_world
           (document_chunks_of default_config completion_fails_world (file_id_of msg_1))
         = Some ''connection reset''"
    and "db_set_failed completion_fails_world = DbOk"
proof -
  show "entered completion_fails_world msg_1 db_1"
    by (rule entered_msg_1) (simp add: completion_fails_world_def good_world_def)
  show "reaches_chunking default_config completion_fails_world"
    by (rule reaches_chunking_good) (simp_all add: completion_fails_world_def good_world_def)
  show "persistence_error completion_fails_world
           (document_chunks_of default_config completion_fails_world (file_id_of msg_1))
         = Some ''connection reset''"
    by (simp add: persistence_error_def completion_fails_world_def good_world_def)
  show "db_set_failed completion_fails_world = DbOk"
    by (simp add: completion_fails_world_def good_world_def)
qed

theorem persistence_error_marks_failed_witness:
  "entered completion_fails_world msg_1 db_1
   \<and> reaches_chunking default_config completion_fails_world
   \<and> persistence_error completion_fails_world
        (document_chunks_of default_config completion_fails_world ''f1'') = Some ''connection reset''
   \<and> \<not> fst (process_dropbox_file default_config completion_fails_world msg_1 db_1)
   \<and> map_option last_error
        (record_of (snd (process_dropbox_file default_config completion_fails_world msg_1 db_1)) ''f1'')
      = Some (Some ''connection reset'')"
proof -
  note f = completion_fails_facts
  note t = persistence_error_marks_failed[OF f(1) f(2) f(3), unfolded file_id_of_msg_1]
  from t f(4) have "map_option last_error
        (record_of (snd (process_dropbox_file default_config completion_fails_world msg_1 db_1)) ''f1'')
      = Some (Some ''connection reset'')"
    by simp
  with t f(1) f(2) f(3)[unfolded file_id_of_msg_1] show ?thesis by blast
qed

text \<open>
  Claim C3 as stated fails: the completion update raises, and the record that was
  \<open>processing\<close> ends \<open>failed\<close>, not \<open>processing\<close>.
\<close>

theorem persistence_error_counterexample:
  "db_set_completed completion_fails_world = DbRaises ''connection reset''
   \<and> map_option processing_status
        (record_of (marked_processing completion_fails_world msg_1 db_1) ''f1'') = Some ''processing''
   \<and> map_option processing_status
        (record_of (snd (process_dropbox_file default_config completion_fails_world msg_1 db_1)) ''f1'')
      = Some ''failed''"
proof -
  note f = completion_fails_facts
  from pipeline_persistence_error[OF f(2) f(3)]
  obtain cs where p: "pipeline default_config completion_fails_world (file_id_of msg_1)
        (db_1\<lparr> dropbox_files :=
              update_one_by_id (file_id_of msg_1) (set_processing (utcnow completion_fails_world))
                (dropbox_files db_1) \<rparr>)
      = (Inl ''connection reset'', db_1\<lparr> dropbox_files :=
              update_one_by_id (file_id_of msg_1) (set_processing (utcnow completion_fails_world))
                (dropbox_files db_1),
              dropbox_chunks := cs \<rparr>)"
    by blast
  have "\<exists>cs'. db_1\<lparr> dropbox_files :=
              update_one_by_id (file_id_of msg_1) (set_processing (utcnow completion_fails_world))
                (dropbox_files db_1),
              dropbox_chunks := cs \<rparr>
          = db_1\<lparr> dropbox_files :=
              update_one_by_id (file_id_of msg_1) (set_processing (utcnow completion_fails_world))
                (dropbox_files db_1),
              dropbox_chunks := cs' \<rparr>"
    by blast
  note h = process_handles_exception[OF f(1) p this, unfolded file_id_of_msg_1]
  have a: "db_set_completed completion_fails_world = DbRaises ''connection reset''"
    by (simp add: completion_fails_world_def)
  have b: "map_option processing_status
        (record_of (marked_processing completion_fails_world msg_1 db_1) ''f1'') = Some ''processing''"
    by (simp add: marked_processing_def record_of_def find_update_one file_id_of_msg_1 db_1_def
                  set_processing_def)
  from h(2) f(4) have c: "map_option processing_status
        (record_of (snd (process_dropbox_file default_config completion_fails_world msg_1 db_1)) ''f1'')
      = Some ''failed''"
    by simp
  from a b c show ?thesis by blast
qed


lemma update_keeps_attempts:
  assumes "\<And>r. attempts (f r) = attempts r"
  shows "map_option attempts (record_of (db\<lparr> dropbox_files := update_one_by_id k' f (dropbox_files db) \<rparr>) k)
           = map_option attempts (record_of db k)"
  using assms by (cases "record_of db k") (auto simp: record_of_update)

lemma pipeline_keeps_attempts:
  assumes "pipeline cfg w fid db = (res, db2)"
  shows "map_option attempts (record_of db2 k) = map_option attempts (record_of db k)"
proof (cases res)
  case (Inl e)
  with assms pipeline_exception_shape obtain cs where "db2 = db\<lparr> dropbox_chunks := cs \<rparr>" by blast
  then show ?thesis by (simp add: record_of_chunks)
next
  case (Inr u)
  show ?thesis
  proof (cases "reaches_chunking cfg w")
    case False
    from pipeline_before_chunking[OF False, of fid db] assms Inr show ?thesis by auto
  next
    case True
    show ?thesis
    proof (cases "persistence_error w (document_chunks_of cfg w fid)")
      case None
      let ?f = "set_completed (the_str (upload_markdown_to_blob w))
                  (length (document_chunks_of cfg w fid)) (utcnow w)"
      from pipeline_persistence_ok[OF True None, of db] assms
      have "db2 = (db\<lparr> dropbox_files := update_one_by_id fid ?f (dropbox_files db) \<rparr>)
                    \<lparr> dropbox_chunks := dropbox_chunks db @ document_chunks_of cfg w fid \<rparr>"
        by simp
      moreover have "\<And>r. attempts (?f r) = attempts r" by (simp add: set_completed_def)
      ultimately show ?thesis by (simp add: record_of_chunks update_keeps_attempts)
    next
      case (Some e)
      from pipeline_persistence_error[OF True Some, of db] assms Inr show ?thesis by auto
    qed
  qed
qed

lemma record_failure_keeps_attempts:
  "map_option attempts (record_of (record_failure w fid e db) k) = map_option attempts (record_of db k)"
proof (cases "db_set_failed w")
  case DbOk
  have "\<And>r. attempts (set_failed e (utcnow w) r) = attempts r" by (simp add: set_failed_def)
  with DbOk show ?thesis by (simp add: record_failure_def update_keeps_attempts)
next
  case (DbRaises e')
  then show ?thesis by (simp add: record_failure_def)
qed

lemma marked_processing_keeps_attempts:
  "map_option attempts (record_of (marked_processing w msg db) k) = map_option attempts (record_of db k)"
proof -
  have "\<And>r. attempts (set_processing (utcnow w) r) = attempts r" by (simp add: set_processing_def)
  then show ?thesis by (simp add: marked_processing_def update_keeps_attempts)
qed

text \<open>
  No step of the worker writes \<open>processing_metadata.attempts\<close>: after
  \<open>process_dropbox_file\<close> every record has the \<open>attempts\<close> it had before, on every path.
\<close>

lemma attempts_never_written:
  "processing_status (set_processing now r) = ''processing''
   \<and> attempts (set_processing now r) = attempts r
   \<and> map_option attempts (record_of (marked_processing w msg db) k)
       = map_option attempts (record_of db k)
   \<and> map_option attempts (record_of (snd (process_dropbox_file cfg w msg db)) k)
       = map_option attempts (record_of db k)"
proof -
  have "map_option attempts (record_of (snd (process_dropbox_file cfg w msg db)) k)
          = map_option attempts (record_of db k)"
  proof (cases "entered w msg db")
    case False
    then show ?thesis by (simp add: process_not_entered)
  next
    case True
    obtain res db2 where p: "pipeline cfg w (file_id_of msg) (marked_processing w msg db) = (res, db2)"
      by (cases "pipeline cfg w (file_id_of msg) (marked_processing w msg db)") auto
    have k: "map_option attempts (record_of db2 k) = map_option attempts (record_of db k)"
      using pipeline_keeps_attempts[OF p] by (simp add: marked_processing_keeps_attempts)
    show ?thesis
    proof (cases res)
      case (Inl e)
      with p have "process_dropbox_file cfg w msg db = (False, record_failure w (file_id_of msg) e db2)"
        by (simp add: process_entered[OF True] marked_processing_def)
      then show ?thesis by (simp add: record_failure_keeps_attempts k)
    next
      case (Inr u)
      with p have "process_dropbox_file cfg w msg db = (True, db2)"
        by (simp add: process_entered[OF True] marked_processing_def)
      then show ?thesis by (simp add: k)
    qed
  qed
  then show ?thesis by (simp add: set_processing_def marked_processing_keeps_attempts)
qed

lemma good_world_facts:
  shows "entered good_world msg_1 db_1"
    and "reaches_chunking default_config good_world"
  by (rule entered_msg_1, simp add: good_world_def)
     (rule reaches_chunking_good, simp_all add: good_world_def)

lemma updates_fail_facts:
  shows "entered updates_fail_world msg_1 db_1"
    and "reaches_chunking default_config updates_fail_world"
    and "persistence_error updates_fail_world
           (document_chunks_of default_config updates_fail_world (file_id_of msg_1))
         = Some ''connection reset''"
    and "db_set_failed updates_fail_world = DbRaises ''connection reset''"
    and "utcnow updates_fail_world = 2"
proof -
  show "entered updates_fail_world msg_1 db_1"
    by (rule entered_msg_1) (simp add: updates_fail_world_def good_world_def)
  show "reaches_chunking default_config updates_fail_world"
    by (rule reaches_chunking_good) (simp_all add: updates_fail_world_def good_world_def)
  show "persistence_error updates_fail_world
           (document_chunks_of default_config updates_fail_world (file_id_of msg_1))
         = Some ''connection reset''"
    by (simp add: persistence_error_def updates_fail_world_def good_world_def)
  show "db_set_failed updates_fail_world = DbRaises ''connection reset''"
    by (simp add: updates_fail_world_def)
  show "utcnow updates_fail_world = 2"
    by (simp add: updates_fail_world_def good_world_def)
qed

text \<open>
  Claim C8 fails on the code. The record \<open>f1\<close> has no \<open>attempts\<close> yet, and processing of
  its message is entered. (1) In the run where the completion update and the handler's
  update both raise, the record is left as the dispatch update made it: it differs from
  the record before in \<open>processing_status = processing\<close> and \<open>updated_at\<close> only, so
  \<open>attempts\<close> was not incremented on entering. (2) In the run where every service
  answers the file ends \<open>completed\<close>, still without \<open>attempts\<close>.
\<close>

theorem attempts_not_incremented:
  "record_of db_1 ''f1'' = Some file_1
   \<and> attempts file_1 = None
   \<and> entered updates_fail_world msg_1 db_1
   \<and> record_of (snd (process_dropbox_file default_config updates_fail_world msg_1 db_1)) ''f1''
       = Some (file_1\<lparr> processing_status := ''processing'', updated_at := 2 \<rparr>)
   \<and> entered good_world msg_1 db_1
   \<and> fst (process_dropbox_file default_config good_world msg_1 db_1)
   \<and> map_option processing_status
        (record_of (snd (process_dropbox_file default_config good_world msg_1 db_1)) ''f1'')
      = Some ''completed''
   \<and> map_option attempts
        (record_of (snd (process_dropbox_file default_config good_world msg_1 db_1)) ''f1'')
      = Some None"
proof -
  have a: "attempts file_1 = None" by (simp add: file_1_def)
  note f = updates_fail_facts
  from pipeline_persistence_error[OF f(2) f(3)]
  obtain cs where p: "pipeline default_config updates_fail_world (file_id_of msg_1)
        (db_1\<lparr> dropbox_files :=
              update_one_by_id (file_id_of msg_1) (set_processing (utcnow updates_fail_world))
                (dropbox_files db_1) \<rparr>)
      = (Inl ''connection reset'', db_1\<lparr> dropbox_files :=
              update_one_by_id (file_id_of msg_1) (set_processing (utcnow updates_fail_world))
                (dropbox_files db_1),
              dropbox_chunks := cs \<rparr>)"
    by blast
  have run: "process_dropbox_file default_config updates_fail_world msg_1 db_1
      = (False, db_1\<lparr> dropbox_files :=
              update_one_by_id (file_id_of msg_1) (set_processing (utcnow updates_fail_world))
                (dropbox_files db_1),
              dropbox_chunks := cs \<rparr>)"
    by (simp add: process_entered[OF f(1)] p record_failure_def f(4))
  have b: "record_of (snd (process_dropbox_file default_config updates_fail_world msg_1 db_1)) ''f1''
       = Some (file_1\<lparr> processing_status := ''processing'', updated_at := 2 \<rparr>)"
    unfolding run
    by (simp add: record_of_def find_update_one file_id_of_msg_1 f(5) db_1_def set_processing_def)
  note g = good_world_facts
  have pe: "persistence_error good_world
              (document_chunks_of default_config good_world (file_id_of msg_1)) = None"
    by (simp add: persistence_error_def good_world_def)
  note rec = process_completes_record[OF g(1) g(2) pe, unfolded file_id_of_msg_1]
  have "map_option attempts
        (record_of (snd (process_dropbox_file default_config good_world msg_1 db_1)) ''f1'')
      = map_option attempts (record_of db_1 ''f1'')"
    using attempts_never_written[of _ _ good_world msg_1 db_1 "''f1''" default_config] by blast
  then have c: "map_option attempts
        (record_of (snd (process_dropbox_file default_config good_world msg_1 db_1)) ''f1'')
      = Some None"
    by (simp add: record_of_db_1 a)
  from record_of_db_1 a f(1) b g(1) rec(1) rec(2) c show ?thesis by blast
qed

text \<open>
  Claim C7, as the code has it. A run that returns \<open>False\<close> either stopped before the
  record was marked \<open>processing\<close> (the body does not parse, a required field is
  missing, the update raises, or no record matches) and then wrote nothing at all; or
  an exception \<open>e\<close> left the inner block, and then the handler wrote \<open>failed\<close> and
  \<open>last_error = str(e)\<close>, unless its own update raised, in which case the record stays
  \<open>processing\<close> with the \<open>last_error\<close> it had.
\<close>

theorem failure_paths_and_last_error:
  assumes "\<not> fst (process_dropbox_file cfg w msg db)"
  shows "(\<not> entered w msg db \<longrightarrow> snd (process_dropbox_file cfg w msg db) = db)
       \<and> (entered w msg db \<longrightarrow>
            (\<exists>e. fst (pipeline cfg w (file_id_of msg) (marked_processing w msg db)) = Inl e
               \<and> map_option processing_status
                    (record_of (snd (process_dropbox_file cfg w msg db)) (file_id_of msg))
                  = Some (if db_set_failed w = DbOk then ''failed'' else ''processing'')
               \<and> map_option last_error
                    (record_of (snd (process_dropbox_file cfg w msg db)) (file_id_of msg))
                  = (if db_set_failed w = DbOk then Some (Some e)
                     else map_option last_error (record_of db (file_id_of msg)))))"
proof (intro conjI impI)
  assume "\<not> entered w msg db"
  then show "snd (process_dropbox_file cfg w msg db) = db" by (simp add: process_not_entered)
next
  assume ent: "entered w msg db"
  obtain res db2 where p: "pipeline cfg w (file_id_of msg) (marked_processing w msg db) = (res, db2)"
    by (cases "pipeline cfg w (file_id_of msg) (marked_processing w msg db)") auto
  from p assms obtain e where res: "res = Inl e"
    by (cases res) (auto simp: process_entered[OF ent] marked_processing_def)
  from pipeline_exception_shape[OF p[unfolded res]]
  have shape: "\<exists>cs. db2 = db\<lparr> dropbox_files :=
        update_one_by_id (file_id_of msg) (set_processing (utcnow w)) (dropbox_files db),
        dropbox_chunks := cs \<rparr>"
    by (simp add: marked_processing_def)
  note h = process_handles_exception[OF ent p[unfolded res marked_processing_def] shape]
  from p res have "fst (pipeline cfg w (file_id_of msg) (marked_processing w msg db)) = Inl e" by simp
  with h(2) h(3)
  show "\<exists>e. fst (pipeline cfg w (file_id_of msg) (marked_processing w msg db)) = Inl e
          \<and> map_option processing_status
               (record_of (snd (process_dropbox_file cfg w msg db)) (file_id_of msg))
             = Some (if db_set_failed w = DbOk then ''failed'' else ''processing'')
          \<and> map_option last_error
               (record_of (snd (process_dropbox_file cfg w msg db)) (file_id_of msg))
             = (if db_set_failed w = DbOk then Some (Some e)
                else map_option last_error (record_of db (file_id_of msg)))"
    by blast
qed

lemma nameless_msg_facts:
  shows "\<not> entered good_world nameless_msg db_1"
    and "process_dropbox_file default_config good_world nameless_msg db_1 = (False, db_1)"
proof -
  show n: "\<not> entered good_world nameless_msg db_1"
    by (simp add: entered_def nameless_msg_def required_fields_def data_1_def truthy_def)
  show "process_dropbox_file default_config good_world nameless_msg db_1 = (False, db_1)"
    by (rule process_not_entered[OF n])
qed

theorem failure_paths_and_last_error_witness:
  "\<not> fst (process_dropbox_file default_config good_world nameless_msg db_1)
   \<and> \<not> entered good_world nameless_msg db_1
   \<and> snd (process_dropbox_file default_config good_world nameless_msg db_1) = db_1
   \<and> \<not> fst (process_dropbox_file default_config completion_fails_world msg_1 db_1)
   \<and> entered completion_fails_world msg_1 db_1
   \<and> map_option processing_status
        (record_of (snd (process_dropbox_file default_config completion_fails_world msg_1 db_1)) ''f1'')
      = Some ''failed''"
proof -
  have a: "\<not> fst (process_dropbox_file default_config good_world nameless_msg db_1)"
    by (simp add: nameless_msg_facts(2))
  note t1 = failure_paths_and_last_error[OF a]
  with nameless_msg_facts(1)
  have b: "snd (process_dropbox_file default_config good_world nameless_msg db_1) = db_1" by blast
  note f = completion_fails_facts
  obtain cs where p: "pipeline default_config completion_fails_world (file_id_of msg_1)
        (db_1\<lparr> dropbox_files :=
              update_one_by_id (file_id_of msg_1) (set_processing (utcnow completion_fails_world))
                (dropbox_files db_1) \<rparr>)
      = (Inl ''connection reset'', db_1\<lparr> dropbox_files :=
              update_one_by_id (file_id_of msg_1) (set_processing (utcnow completion_fails_world))
                (dropbox_files db_1),
              dropbox_chunks := cs \<rparr>)"
    using pipeline_persistence_error[OF f(2) f(3)] by blast
  then have c: "\<not> fst (process_dropbox_file default_config completion_fails_world msg_1 db_1)"
    by (simp add: process_entered[OF f(1)])
  note t2 = failure_paths_and_last_error[OF c, unfolded file_id_of_msg_1]
  with f(1) f(4)
  have d: "map_option processing_status
        (record_of (snd (process_dropbox_file default_config completion_fails_world msg_1 db_1)) ''f1'')
      = Some ''failed''"
    by auto
  from a nameless_msg_facts(1) b c f(1) d show ?thesis by blast
qed

text \<open>
  Claim C7 as stated fails: a message that lacks \<open>filename\<close>, and one whose body does not
  parse, make \<open>process_dropbox_file\<close> return \<open>False\<close> with the database untouched; the
  record \<open>f1\<close>, which exists, keeps an empty \<open>last_error\<close>.
\<close>

theorem last_error_counterexample:
  "map_option msg_file_id (body nameless_msg) = Some (Some ''f1'')
   \<and> map_option last_error (record_of db_1 ''f1'') = Some None
   \<and> process_dropbox_file default_config good_world nameless_msg db_1 = (False, db_1)
   \<and> process_dropbox_file default_config good_world garbled_msg db_1 = (False, db_1)"
proof -
  have a: "map_option msg_file_id (body nameless_msg) = Some (Some ''f1'')"
    by (simp add: nameless_msg_def data_1_def)
  have b: "map_option last_error (record_of db_1 ''f1'') = Some None"
    by (simp add: record_of_db_1 file_1_def)
  have c: "process_dropbox_file default_config good_world garbled_msg db_1 = (False, db_1)"
    by (simp add: process_dropbox_file_def garbled_msg_def)
  from a b nameless_msg_facts(2) c show ?thesis by blast
qed


section \<open>Chunk indices\<close>

text \<open>
  Within one run the indices are the positions of the retained pieces in the splitter's
  output: they increase strictly, and they are \<open>0, 1, 2, ...\<close> when no piece is blank.
\<close>

lemma make_chunks_index_bounds:
  "c \<in> set (make_chunks enc idx pieces) \<Longrightarrow> idx \<le> chunk_index c \<and> chunk_index c < idx + length pieces"
proof (induction pieces arbitrary: idx)
  case Nil
  then show ?case by simp
next
  case (Cons p ps)
  then show ?case by (fastforce simp: Let_def split: if_splits)
qed

lemma make_chunks_increasing:
  "sorted_wrt (<) (map chunk_index (make_chunks enc idx pieces))"
proof (induction pieces arbitrary: idx)
  case Nil
  then show ?case by simp
next
  case (Cons p ps)
  have "idx < chunk_index c" if "c \<in> set (make_chunks enc (Suc idx) ps)" for c
    using make_chunks_index_bounds[OF that] by simp
  with Cons.IH[of "Suc idx"] show ?case by (auto simp: Let_def)
qed

lemma make_chunks_contiguous:
  "(\<And>p. p \<in> set pieces \<Longrightarrow> strip p \<noteq> []) \<Longrightarrow>
   map chunk_index (make_chunks enc idx pieces) = [idx..<idx + length pieces]"
proof (induction pieces arbitrary: idx)
  case Nil
  then show ?case by simp
next
  case (Cons p ps)
  then have "map chunk_index (make_chunks enc (Suc idx) ps) = [Suc idx..<Suc idx + length ps]"
    by simp
  moreover from Cons.prems have "strip p \<noteq> []" by simp
  moreover have "[idx..<idx + length (p # ps)] = idx # [Suc idx..<Suc idx + length ps]"
    by (simp add: upt_conv_Cons del: upt_Suc)
  ultimately show ?case by (simp add: Let_def del: upt_Suc)
qed


lemma pipeline_completion_raises:
  assumes "reaches_chunking cfg w"
      and "document_chunks_of cfg w fid = [] \<or> db_insert_many w = InsertOk"
      and "db_set_completed w = DbRaises e"
  shows "pipeline cfg w fid db
           = (Inl e, db\<lparr> dropbox_chunks := dropbox_chunks db @ document_chunks_of cfg w fid \<rparr>)"
  using assms(2,3)
  by (auto simp: pipeline_persist[OF assms(1)] insert_chunks_def complete_file_def)

lemma document_chunks_two_pieces:
  assumes "text_splitter w = two_pieces" "encoding w = None" "openai_client w"
          "embeddings_create w = unit_vectors"
  shows "map doc_chunk_index (document_chunks_of default_config w fid) = [0, 1]"
proof -
  note c = chunks_of_two_pieces[OF assms(1,2)]
  have "generate_embeddings w (chunks_of default_config w)
          = add_embeddings (chunks_of default_config w) (replicate 2 [1])"
    unfolding c using assms(3,4)
    by (simp add: generate_embeddings_def unit_vectors_def numeral_2_eq_2)
  then show ?thesis
    unfolding document_chunks_of_def by (simp add: c numeral_2_eq_2)
qed

text \<open>
  Claim C2 fails on the code. The worker never removes the chunk records of an earlier
  attempt. The first delivery inserts two chunks, with indices 0 and 1, and fails at the
  completion update; the redelivery inserts the two chunks again and completes the file
  with \<open>chunk_count = 2\<close>: the collection then holds four chunk records for the file,
  with the indices 0, 1, 0, 1.
\<close>

theorem redelivery_duplicates_chunks:
  "\<not> fst (process_dropbox_file default_config completion_fails_world msg_1 db_1)
   \<and> map doc_chunk_index (dropbox_chunks db_after_failed_run) = [0, 1]
   \<and> fst (process_dropbox_file default_config good_world msg_1_again db_after_failed_run)
   \<and> map_option processing_status
        (record_of (snd (process_dropbox_file default_config good_world msg_1_again db_after_failed_run))
           ''f1'') = Some ''completed''
   \<and> map_option chunk_count
        (record_of (snd (process_dropbox_file default_config good_world msg_1_again db_after_failed_run))
           ''f1'') = Some 2
   \<and> map doc_chunk_index
        (dropbox_chunks (snd (process_dropbox_file default_config good_world msg_1_again
                                db_after_failed_run))) = [0, 1, 0, 1]"
proof -
  note f = completion_fails_facts
  let ?docs1 = "document_chunks_of default_config completion_fails_world ''f1''"
  have i1: "map doc_chunk_index ?docs1 = [0, 1]"
    by (rule document_chunks_two_pieces) (simp_all add: completion_fails_world_def good_world_def)
  have p1: "pipeline default_config completion_fails_world ''f1'' db
              = (Inl ''connection reset'', db\<lparr> dropbox_chunks := dropbox_chunks db @ ?docs1 \<rparr>)" for db
    by (rule pipeline_completion_raises[OF f(2)])
       (simp_all add: completion_fails_world_def good_world_def)
  have run1: "process_dropbox_file default_config completion_fails_world msg_1 db_1
      = (False, record_failure completion_fails_world ''f1'' ''connection reset''
                  (db_1\<lparr> dropbox_files := update_one_by_id ''f1''
                            (set_processing (utcnow completion_fails_world)) (dropbox_files db_1),
                         dropbox_chunks := dropbox_chunks db_1 @ ?docs1 \<rparr>))"
    by (simp add: process_entered[OF f(1)] file_id_of_msg_1 p1)
  then have a: "\<not> fst (process_dropbox_file default_config completion_fails_world msg_1 db_1)"
    by simp
  have after: "db_after_failed_run
      = \<lparr> dropbox_files = [(''f1'', set_failed ''connection reset'' 2 (set_processing 2 file_1))],
          dropbox_chunks = ?docs1 \<rparr>"
    unfolding db_after_failed_run_def run1
    by (simp add: record_failure_def completion_fails_world_def good_world_def db_1_def)
  have b: "map doc_chunk_index (dropbox_chunks db_after_failed_run) = [0, 1]"
    unfolding after by (simp add: i1)
  have fid: "file_id_of msg_1_again = ''f1''"
    by (simp add: file_id_of_def msg_1_again_def data_1_def the_str_def)
  have e2: "entered good_world msg_1_again db_after_failed_run"
    unfolding after
    by (simp add: entered_def msg_1_again_def data_1_def required_fields_def truthy_def the_str_def
                  matched_count_def good_world_def)
  let ?docs2 = "document_chunks_of default_config good_world ''f1''"
  have i2: "map doc_chunk_index ?docs2 = [0, 1]"
    by (rule document_chunks_two_pieces) (simp_all add: good_world_def)
  have pe: "persistence_error good_world
              (document_chunks_of default_config good_world (file_id_of msg_1_again)) = None"
    by (simp add: persistence_error_def good_world_def)
  note rec = process_completes_record[OF e2 good_world_facts(2) pe, unfolded fid]
  have n: "length ?docs2 = 2" using arg_cong[OF i2, of length] by simp
  from rec(3) n have c: "map_option chunk_count
        (record_of (snd (process_dropbox_file default_config good_world msg_1_again db_after_failed_run))
           ''f1'') = Some 2"
    by simp
  from rec(5) b i2 have d: "map doc_chunk_index
        (dropbox_chunks (snd (process_dropbox_file default_config good_world msg_1_again
                                db_after_failed_run))) = [0, 1, 0, 1]"
    by simp
  from a b rec(1) rec(2) c d show ?thesis by blast
qed

section \<open>Properties of the resolution of a message\<close>

lemma resolve_failed:
  "resolve cfg False (Some d) =
     Some (if max_receive_count cfg \<le> d
           then dead_letter_message ''MaxDeliveryCountExceeded''
                  (''Message failed processing after '' @ str_int d @ '' attempts'')
           else abandon_message)"
  by (simp add: resolve_def)

lemma receiver_calls_first:
  "hd (receiver_calls cfg transport success dc) =
     (case resolve cfg success dc of None \<Rightarrow> abandon_message | Some c \<Rightarrow> c)"
  by (simp add: receiver_calls_def split: option.splits call_result.splits)

lemma receiver_calls_single:
  "resolve cfg success dc = Some c \<Longrightarrow> transport c \<noteq> OtherError \<Longrightarrow>
   receiver_calls cfg transport success dc = [c]"
  by (simp add: receiver_calls_def split: call_result.splits)

text \<open>A message that fails on every delivery, first delivered with count \<open>dc\<close>, is
  abandoned until the count reaches the maximum and dead-lettered then.\<close>

lemma failing_deliveries_run:
  "dc \<le> max_receive_count cfg \<Longrightarrow> nat (max_receive_count cfg - dc) < n \<Longrightarrow>
   failing_deliveries cfg n dc =
     replicate (nat (max_receive_count cfg - dc)) abandon_message
     @ [dead_letter_message ''MaxDeliveryCountExceeded''
          (''Message failed processing after '' @ str_int (max_receive_count cfg) @ '' attempts'')]"
proof (induction n arbitrary: dc)
  case 0
  then show ?case by simp
next
  case (Suc n)
  show ?case
  proof (cases "dc = max_receive_count cfg")
    case True
    then show ?thesis by (simp add: resolve_failed)
  next
    case False
    with Suc.prems have lt: "dc < max_receive_count cfg" by simp
    then have step: "failing_deliveries cfg (Suc n) dc = abandon_message # failing_deliveries cfg n (dc + 1)"
      by (simp add: resolve_failed)
    from lt Suc.prems have "dc + 1 \<le> max_receive_count cfg" "nat (max_receive_count cfg - (dc + 1)) < n"
      by linarith+
    then have "failing_deliveries cfg n (dc + 1) =
        replicate (nat (max_receive_count cfg - (dc + 1))) abandon_message
        @ [dead_letter_message ''MaxDeliveryCountExceeded''
            (''Message failed processing after '' @ str_int (max_receive_count cfg) @ '' attempts'')]"
      by (rule Suc.IH)
    moreover from lt have "nat (max_receive_count cfg - dc) = Suc (nat (max_receive_count cfg - (dc + 1)))"
      by linarith
    ultimately show ?thesis using step by simp
  qed
qed

lemma failing_deliveries_past_maximum:
  "max_receive_count cfg \<le> dc \<Longrightarrow> 0 < n \<Longrightarrow>
   failing_deliveries cfg n dc =
     [dead_letter_message ''MaxDeliveryCountExceeded''
        (''Message failed processing after '' @ str_int dc @ '' attempts'')]"
  by (cases n) (simp_all add: resolve_failed)

text \<open>
  Claim C5, as the code has it. After a processing that returned \<open>False\<close>, the call made
  on the receiver is \<open>dead_letter_message\<close> with reason \<open>MaxDeliveryCountExceeded\<close> and a
  description naming the count when the delivery count is at least \<open>MAX_RECEIVE_COUNT\<close>,
  and \<open>abandon_message\<close> otherwise (also for a count of \<open>None\<close>, through the handler of
  the comparison's exception); it is the only call unless it raises an exception other
  than \<open>ServiceBusError\<close>. A message that fails on every delivery, first delivered with
  count \<open>c\<close> and redelivered with one more after each abandon, is abandoned while its
  count is below \<open>MAX_RECEIVE_COUNT\<close> and dead-lettered at the first delivery whose
  count has reached it, after which it is delivered no more: for \<open>c\<close> up to the maximum
  that is failure number \<open>MAX_RECEIVE_COUNT - c + 1\<close>, for a larger \<open>c\<close> the first failure.
  It is failure number \<open>MAX_RECEIVE_COUNT\<close> exactly when the first delivery is counted 1.
\<close>

theorem failed_message_resolution:
  assumes "\<not> fst (process_dropbox_file cfg w msg db)"
  shows "hd (fst (handle_message cfg w transport msg db))
           = (case delivery_count msg of
                None \<Rightarrow> abandon_message
              | Some d \<Rightarrow>
                  if max_receive_count cfg \<le> d
                  then dead_letter_message ''MaxDeliveryCountExceeded''
                         (''Message failed processing after '' @ str_int d @ '' attempts'')
                  else abandon_message)
       \<and> (delivery_count msg \<noteq> None
            \<and> transport (hd (fst (handle_message cfg w transport msg db))) \<noteq> OtherError
          \<longrightarrow> length (fst (handle_message cfg w transport msg db)) = 1)
       \<and> (c \<le> max_receive_count cfg \<and> nat (max_receive_count cfg - c) < n \<longrightarrow>
            failing_deliveries cfg n c
              = replicate (nat (max_receive_count cfg - c)) abandon_message
                @ [dead_letter_message ''MaxDeliveryCountExceeded''
                     (''Message failed processing after '' @ str_int (max_receive_count cfg)
                        @ '' attempts'')])
       \<and> (max_receive_count cfg \<le> c \<and> 0 < n \<longrightarrow>
            failing_deliveries cfg n c
              = [dead_letter_message ''MaxDeliveryCountExceeded''
                   (''Message failed processing after '' @ str_int c @ '' attempts'')])"
proof (intro conjI impI)
  obtain db' where p: "process_dropbox_file cfg w msg db = (False, db')"
    using assms by (cases "process_dropbox_file cfg w msg db") auto
  then have calls: "fst (handle_message cfg w transport msg db)
                      = receiver_calls cfg transport False (delivery_count msg)"
    by (simp add: handle_message_def)
  show "hd (fst (handle_message cfg w transport msg db))
           = (case delivery_count msg of
                None \<Rightarrow> abandon_message
              | Some d \<Rightarrow>
                  if max_receive_count cfg \<le> d
                  then dead_letter_message ''MaxDeliveryCountExceeded''
                         (''Message failed processing after '' @ str_int d @ '' attempts'')
                  else abandon_message)"
    unfolding calls receiver_calls_first
    by (cases "delivery_count msg") (simp_all add: resolve_def)
  assume a: "delivery_count msg \<noteq> None
            \<and> transport (hd (fst (handle_message cfg w transport msg db))) \<noteq> OtherError"
  then obtain d where d: "delivery_count msg = Some d" by auto
  obtain r where r: "resolve cfg False (Some d) = Some r" by (simp add: resolve_failed)
  then have "hd (receiver_calls cfg transport False (Some d)) = r"
    by (simp add: receiver_calls_first)
  with a calls d have "transport r \<noteq> OtherError" by simp
  from receiver_calls_single[of cfg False "Some d" r transport, OF r this] calls d
  show "length (fst (handle_message cfg w transport msg db)) = 1" by simp
next
  assume "c \<le> max_receive_count cfg \<and> nat (max_receive_count cfg - c) < n"
  then show "failing_deliveries cfg n c
          = replicate (nat (max_receive_count cfg - c)) abandon_message
            @ [dead_letter_message ''MaxDeliveryCountExceeded''
                 (''Message failed processing after '' @ str_int (max_receive_count cfg)
                    @ '' attempts'')]"
    by (simp add: failing_deliveries_run)
next
  assume "max_receive_count cfg \<le> c \<and> 0 < n"
  then show "failing_deliveries cfg n c
          = [dead_letter_message ''MaxDeliveryCountExceeded''
               (''Message failed processing after '' @ str_int c @ '' attempts'')]"
    by (simp add: failing_deliveries_past_maximum)
qed

lemma str_int_digits: "str_int 3 = ''3''" "str_int 5 = ''5''"
  by (simp_all add: str_int_def digit_def)

theorem failed_message_resolution_witness:
  "\<not> fst (process_dropbox_file default_config good_world garbled_msg db_1)
   \<and> delivery_count garbled_msg = Some 3
   \<and> max_receive_count default_config = 3
   \<and> fst (handle_message default_config good_world calls_return garbled_msg db_1)
       = [dead_letter_message ''MaxDeliveryCountExceeded'' ''Message failed processing after 3 attempts'']
   \<and> failing_deliveries default_config 3 1
       = [abandon_message, abandon_message,
          dead_letter_message ''MaxDeliveryCountExceeded'' ''Message failed processing after 3 attempts'']
   \<and> failing_deliveries default_config 3 5
       = [dead_letter_message ''MaxDeliveryCountExceeded'' ''Message failed processing after 5 attempts'']"
proof -
  have a: "\<not> fst (process_dropbox_file default_config good_world garbled_msg db_1)"
    by (simp add: process_dropbox_file_def garbled_msg_def)
  have d: "delivery_count garbled_msg = Some 3" by (simp add: garbled_msg_def)
  have m: "max_receive_count default_config = 3" by (simp add: default_config_def)
  note t = failed_message_resolution[OF a, of calls_return 1 3]
  from t have h: "hd (fst (handle_message default_config good_world calls_return garbled_msg db_1))
       = dead_letter_message ''MaxDeliveryCountExceeded'' ''Message failed processing after 3 attempts''"
    by (simp add: d m str_int_digits)
  from t d have "length (fst (handle_message default_config good_world calls_return garbled_msg db_1)) = 1"
    by (simp add: calls_return_def)
  with h have one: "fst (handle_message default_config good_world calls_return garbled_msg db_1)
       = [dead_letter_message ''MaxDeliveryCountExceeded'' ''Message failed processing after 3 attempts'']"
    by (cases "fst (handle_message default_config good_world calls_return garbled_msg db_1)") simp_all
  from t have run: "failing_deliveries default_config 3 1
       = [abandon_message, abandon_message,
          dead_letter_message ''MaxDeliveryCountExceeded'' ''Message failed processing after 3 attempts'']"
    by (simp add: m str_int_digits numeral_2_eq_2)
  note t5 = failed_message_resolution[OF a, of calls_return 5 3]
  from t5 have past: "failing_deliveries default_config 3 5
       = [dead_letter_message ''MaxDeliveryCountExceeded'' ''Message failed processing after 5 attempts'']"
    by (simp add: m str_int_digits)
  from a d m one run past show ?thesis by blast
qed

text \<open>
  Claim C5 as stated fails: with \<open>MAX_RECEIVE_COUNT = 3\<close>, a message whose first delivery
  carries the count 0 and whose processing fails every time is abandoned at its third
  failure (count 2) and dead-lettered at its fourth.
\<close>

theorem retry_ceiling_counterexample:
  "max_receive_count default_config = 3
   \<and> resolve default_config False (Some 2) = Some abandon_message
   \<and> failing_deliveries default_config 4 0
       = [abandon_message, abandon_message, abandon_message,
          dead_letter_message ''MaxDeliveryCountExceeded'' ''Message failed processing after 3 attempts'']"
proof -
  have m: "max_receive_count default_config = 3" by (simp add: default_config_def)
  have r: "resolve default_config False (Some 2) = Some abandon_message"
    by (simp add: resolve_failed m)
  have "failing_deliveries default_config 4 0
       = replicate (nat (max_receive_count default_config - 0)) abandon_message
         @ [dead_letter_message ''MaxDeliveryCountExceeded''
              (''Message failed processing after '' @ str_int (max_receive_count default_config)
                 @ '' attempts'')]"
    by (rule failing_deliveries_run) (simp_all add: m)
  then have f: "failing_deliveries default_config 4 0
       = [abandon_message, abandon_message, abandon_message,
          dead_letter_message ''MaxDeliveryCountExceeded'' ''Message failed processing after 3 attempts'']"
    by (simp add: m str_int_digits numeral_3_eq_3)
  from m r f show ?thesis by blast
qed


section \<open>Properties of manual_sync\<close>

text \<open>The dictionary literal always raises, so the statements after it never run.\<close>

lemma file_record_literal_raises:
  "file_record_literal w fm ftype url sha256_hash = Inl (NameError ''file_hash'')"
  by (simp add: file_record_literal_def file_hash_name_def)

lemma upload_and_enqueue_skips:
  "fst (upload_and_enqueue w fm ftype st) = Skipped
   \<and> sync_db (snd (upload_and_enqueue w fm ftype st)) = sync_db st
   \<and> queue (snd (upload_and_enqueue w fm ftype st)) = queue st"
  by (simp add: upload_and_enqueue_def file_record_literal_raises Let_def split: option.splits)

lemma sync_file_skips:
  "fst (sync_file w force fm st) = Skipped
   \<and> queue (snd (sync_file w force fm st)) = queue st
   \<and> map fst (dropbox_files (sync_db (snd (sync_file w force fm st))))
       = map fst (dropbox_files (sync_db st))"
proof -
  have m: "map fst (update_one_by_id oid f files) = map fst files" for oid f files
    by (induction files) auto
  show ?thesis
    by (simp add: sync_file_def Let_def upload_and_enqueue_skips m
             split: option.splits prod.splits dedup.splits)
qed

lemma sync_loop_never_queues:
  "sync_loop w force files q s st = (q', s', st') \<Longrightarrow>
   q' = q \<and> s' = s + int (length files) \<and> queue st' = queue st
   \<and> map fst (dropbox_files (sync_db st')) = map fst (dropbox_files (sync_db st))"
proof (induction files arbitrary: q s st)
  case Nil
  then show ?case by simp
next
  case (Cons fm files)
  obtain c st1 where f: "sync_file w force fm st = (c, st1)"
    by (cases "sync_file w force fm st") auto
  with sync_file_skips[of w force fm st]
  have c: "c = Skipped" and q1: "queue st1 = queue st"
    and k1: "map fst (dropbox_files (sync_db st1)) = map fst (dropbox_files (sync_db st))"
    by simp_all
  from Cons.prems f c have "sync_loop w force files q (s + 1) st1 = (q', s', st')" by simp
  from Cons.IH[OF this] q1 k1 show ?case by simp
qed

text \<open>No call of \<open>manual_sync\<close> queues a file or creates a record, whatever the listing
  and the services.\<close>

lemma manual_sync_never_queues:
  "files_queued (fst (manual_sync w force files st)) = 0
   \<and> files_skipped (fst (manual_sync w force files st)) = int (length files)
   \<and> queue (snd (manual_sync w force files st)) = queue st
   \<and> map fst (dropbox_files (sync_db (snd (manual_sync w force files st))))
       = map fst (dropbox_files (sync_db st))"
proof -
  obtain q s st' where l: "sync_loop w force files 0 0 st = (q, s, st')"
    by (cases "sync_loop w force files 0 0 st") auto
  from sync_loop_never_queues[OF l] l show ?thesis by (simp add: manual_sync_def)
qed

lemma a_pdf_supported: "get_file_extension (fm_name a_pdf) = ''pdf''"
  by (simp add: get_file_extension_def a_pdf_def lower_def lower_char_def)

lemma pdf_supported: "is_supported_file_type ''pdf''"
  by (simp add: is_supported_file_type_def supported_types_def lower_def lower_char_def)

text \<open>
  Claim C1 fails on the code. The listing holds one supported file with no record; all
  services answer. The file is downloaded and its blob uploaded, then building the
  record raises \<open>NameError\<close>: no record is created, no message is enqueued, and the
  response counts \<open>queued = 0\<close>, \<open>skipped = 1\<close>.
\<close>

theorem unseen_file_is_skipped:
  "is_supported_file_type (get_file_extension (fm_name a_pdf))
   \<and> find_one_by_dropbox_file_id (fm_id a_pdf) (dropbox_files (sync_db empty_state)) = None
   \<and> files_queued (fst (manual_sync sync_services False [a_pdf] empty_state)) = 0
   \<and> files_skipped (fst (manual_sync sync_services False [a_pdf] empty_state)) = 1
   \<and> dropbox_files (sync_db (snd (manual_sync sync_services False [a_pdf] empty_state))) = []
   \<and> queue (snd (manual_sync sync_services False [a_pdf] empty_state)) = []
   \<and> downloaded (snd (manual_sync sync_services False [a_pdf] empty_state)) = [''/docs/a.pdf'']
   \<and> map fst (blobs (snd (manual_sync sync_services False [a_pdf] empty_state))) = [''dropbox/d1/a.pdf'']"
proof -
  have u: "upload_and_enqueue sync_services a_pdf ''pdf'' empty_state
             = (Skipped, empty_state\<lparr> downloaded := [''/docs/a.pdf''],
                                      blobs := [(''dropbox/d1/a.pdf'', ''%PDF'')] \<rparr>)"
    by (simp add: upload_and_enqueue_def file_record_literal_raises Let_def sync_services_def
                  download_bytes_def digest_d1_def never_raises_def a_pdf_def empty_state_def)
  have n: "find_one_by_dropbox_file_id (fm_id a_pdf) (dropbox_files (sync_db empty_state)) = None"
    by (simp add: empty_state_def)
  have f: "sync_file sync_services False a_pdf empty_state
             = (Skipped, empty_state\<lparr> downloaded := [''/docs/a.pdf''],
                                      blobs := [(''dropbox/d1/a.pdf'', ''%PDF'')] \<rparr>)"
    by (simp add: sync_file_def a_pdf_supported pdf_supported n u Let_def)
       (simp add: sync_services_def db_never_raises_def)
  have m: "snd (manual_sync sync_services False [a_pdf] empty_state)
             = empty_state\<lparr> downloaded := [''/docs/a.pdf''],
                             blobs := [(''dropbox/d1/a.pdf'', ''%PDF'')] \<rparr>"
    and q: "files_queued (fst (manual_sync sync_services False [a_pdf] empty_state)) = 0"
    and s: "files_skipped (fst (manual_sync sync_services False [a_pdf] empty_state)) = 1"
    by (simp_all add: manual_sync_def f)
  show ?thesis
    unfolding m using q s n by (simp add: a_pdf_supported pdf_supported empty_state_def)
qed


text \<open>
  The deduplication step of \<open>manual_sync\<close>. For a supported file that has a record, with
  \<open>force_reprocess\<close> false and the lookup returning: if both modification times are
  present and equal, the file is skipped and nothing changes; otherwise, if the
  remote content hash is present, not empty, and equal to the stored one, the file is
  skipped, nothing is downloaded, uploaded or enqueued, and the records differ from
  before in \<open>dropbox_modified_at\<close> at most, which the update sets to the remote time
  (unless the update raises); otherwise the file goes on to the download and upload
  steps, where it is counted as skipped as well: the records and the queue stay as
  they were.
\<close>

lemma dedup_decision:
  assumes "is_supported_file_type (get_file_extension (fm_name fm))"
      and "\<not> db_raises w FindExisting (fm_id fm)"
      and "find_one_by_dropbox_file_id (fm_id fm) (dropbox_files (sync_db st)) = Some (oid, existing)"
  shows "(dropbox_modified_at existing \<noteq> None \<and> dropbox_modified_at existing = server_modified fm \<longrightarrow>
            sync_file w False fm st = (Skipped, st))
       \<and> (\<not> (dropbox_modified_at existing \<noteq> None \<and> dropbox_modified_at existing = server_modified fm)
          \<and> truthy (content_hash fm) \<and> metadata_content_hash existing = content_hash fm \<longrightarrow>
            fst (sync_file w False fm st) = Skipped
          \<and> downloaded (snd (sync_file w False fm st)) = downloaded st
          \<and> blobs (snd (sync_file w False fm st)) = blobs st
          \<and> queue (snd (sync_file w False fm st)) = queue st
          \<and> dropbox_chunks (sync_db (snd (sync_file w False fm st))) = dropbox_chunks (sync_db st)
          \<and> map (\<lambda>kr. (fst kr, (snd kr)\<lparr> dropbox_modified_at := None \<rparr>))
                (dropbox_files (sync_db (snd (sync_file w False fm st))))
              = map (\<lambda>kr. (fst kr, (snd kr)\<lparr> dropbox_modified_at := None \<rparr>))
                  (dropbox_files (sync_db st))
          \<and> dropbox_files (sync_db (snd (sync_file w False fm st)))
              = (if db_raises w TouchModified (fm_id fm) then dropbox_files (sync_db st)
                 else update_one_by_id oid (\<lambda>r. r\<lparr> dropbox_modified_at := server_modified fm \<rparr>)
                        (dropbox_files (sync_db st))))
       \<and> (\<not> (dropbox_modified_at existing \<noteq> None \<and> dropbox_modified_at existing = server_modified fm)
          \<and> \<not> (truthy (content_hash fm) \<and> metadata_content_hash existing = content_hash fm) \<longrightarrow>
            sync_file w False fm st = upload_and_enqueue w fm (get_file_extension (fm_name fm)) st
          \<and> fst (sync_file w False fm st) = Skipped
          \<and> sync_db (snd (sync_file w False fm st)) = sync_db st
          \<and> queue (snd (sync_file w False fm st)) = queue st
          \<and> (dropbox_download w (path_display fm) \<noteq> None \<longrightarrow>
                downloaded (snd (sync_file w False fm st)) = downloaded st @ [path_display fm]))"
proof (intro conjI impI)
  assume m: "dropbox_modified_at existing \<noteq> None \<and> dropbox_modified_at existing = server_modified fm"
  then have "server_modified fm \<noteq> None" by metis
  then obtain t where t: "server_modified fm = Some t" by blast
  with m have "dropbox_modified_at existing = Some t" by simp
  with t have "dedup_check existing fm = Unchanged_metadata"
    by (simp add: dedup_check_def Let_def)
  with assms show "sync_file w False fm st = (Skipped, st)"
    by (simp add: sync_file_def Let_def)
next
  assume h: "\<not> (dropbox_modified_at existing \<noteq> None \<and> dropbox_modified_at existing = server_modified fm)
          \<and> truthy (content_hash fm) \<and> metadata_content_hash existing = content_hash fm"
  then have d: "dedup_check existing fm = Unchanged_hash"
    by (auto simp: dedup_check_def Let_def)
  have e: "map (\<lambda>kr. (fst kr, (snd kr)\<lparr> dropbox_modified_at := None \<rparr>))
             (update_one_by_id k (\<lambda>r. r\<lparr> dropbox_modified_at := t \<rparr>) files)
           = map (\<lambda>kr. (fst kr, (snd kr)\<lparr> dropbox_modified_at := None \<rparr>)) files" for k t files
    by (induction files) auto
  from d assms show "fst (sync_file w False fm st) = Skipped"
    and "downloaded (snd (sync_file w False fm st)) = downloaded st"
    and "blobs (snd (sync_file w False fm st)) = blobs st"
    and "queue (snd (sync_file w False fm st)) = queue st"
    and "dropbox_chunks (sync_db (snd (sync_file w False fm st))) = dropbox_chunks (sync_db st)"
    and "dropbox_files (sync_db (snd (sync_file w False fm st)))
              = (if db_raises w TouchModified (fm_id fm) then dropbox_files (sync_db st)
                 else update_one_by_id oid (\<lambda>r. r\<lparr> dropbox_modified_at := server_modified fm \<rparr>)
                        (dropbox_files (sync_db st)))"
    by (simp_all add: sync_file_def Let_def)
  then show "map (\<lambda>kr. (fst kr, (snd kr)\<lparr> dropbox_modified_at := None \<rparr>))
                (dropbox_files (sync_db (snd (sync_file w False fm st))))
              = map (\<lambda>kr. (fst kr, (snd kr)\<lparr> dropbox_modified_at := None \<rparr>))
                  (dropbox_files (sync_db st))"
    by (simp add: e)
next
  assume c: "\<not> (dropbox_modified_at existing \<noteq> None \<and> dropbox_modified_at existing = server_modified fm)
          \<and> \<not> (truthy (content_hash fm) \<and> metadata_content_hash existing = content_hash fm)"
  then have "dedup_check existing fm = Changed"
    by (auto simp: dedup_check_def Let_def)
  with assms show u: "sync_file w False fm st = upload_and_enqueue w fm (get_file_extension (fm_name fm)) st"
    by (simp add: sync_file_def Let_def)
  show "fst (sync_file w False fm st) = Skipped"
    and "sync_db (snd (sync_file w False fm st)) = sync_db st"
    and "queue (snd (sync_file w False fm st)) = queue st"
    unfolding u by (simp_all add: upload_and_enqueue_skips)
  assume "dropbox_download w (path_display fm) \<noteq> None"
  then show "downloaded (snd (sync_file w False fm st)) = downloaded st @ [path_display fm]"
    unfolding u
    by (auto simp: upload_and_enqueue_def file_record_literal_raises Let_def)
qed

lemma completed_state_facts:
  shows "is_supported_file_type (get_file_extension (fm_name a_pdf))"
    and "is_supported_file_type (get_file_extension (fm_name touched_listing))"
    and "is_supported_file_type (get_file_extension (fm_name changed_listing))"
    and "\<not> db_raises sync_services c i"
    and "find_one_by_dropbox_file_id ''id:a'' (dropbox_files (sync_db completed_state))
           = Some (''f1'', completed_record)"
    and "fm_id a_pdf = ''id:a''" and "fm_id touched_listing = ''id:a''"
    and "fm_id changed_listing = ''id:a''"
proof -
  show "is_supported_file_type (get_file_extension (fm_name a_pdf))"
    by (simp add: a_pdf_supported pdf_supported)
  have "fm_name touched_listing = fm_name a_pdf" by (simp add: touched_listing_def)
  then show "is_supported_file_type (get_file_extension (fm_name touched_listing))"
    by (simp add: a_pdf_supported pdf_supported)
  have "fm_name changed_listing = fm_name a_pdf" by (simp add: changed_listing_def)
  then show "is_supported_file_type (get_file_extension (fm_name changed_listing))"
    by (simp add: a_pdf_supported pdf_supported)
  show "\<not> db_raises sync_services c i" by (simp add: sync_services_def db_never_raises_def)
  show "find_one_by_dropbox_file_id ''id:a'' (dropbox_files (sync_db completed_state))
          = Some (''f1'', completed_record)"
    by (simp add: completed_state_def completed_record_def file_1_def)
  show "fm_id a_pdf = ''id:a''" by (simp add: a_pdf_def)
  show "fm_id touched_listing = ''id:a''" by (simp add: touched_listing_def a_pdf_def)
  show "fm_id changed_listing = ''id:a''" by (simp add: changed_listing_def a_pdf_def)
qed

lemma changed_listing_upload:
  "upload_and_enqueue sync_services changed_listing ''pdf'' completed_state
     = (Skipped, completed_state\<lparr> downloaded := [''/docs/a.pdf''],
                                   blobs := [(''dropbox/d1/a.pdf'', ''%PDF'')] \<rparr>)"
  by (simp add: upload_and_enqueue_def file_record_literal_raises Let_def sync_services_def
                download_bytes_def digest_d1_def never_raises_def a_pdf_def changed_listing_def
                completed_state_def)

text \<open>
  Claim C6 fails on the code. A file has a completed record (modification time 1,
  content hash \<open>h1\<close>), and \<open>force_reprocess\<close> is false. Listed with the same modification
  time, it is skipped and nothing changes; listed with a later time and the same hash,
  it is skipped and the stored modification time alone is updated, as the claim says.
  Listed with a later time and another hash (\<open>h2\<close>), it takes the third branch and
  is not reprocessed: it is downloaded and its blob uploaded, then building the record
  raises \<open>NameError\<close>, so that the file is counted as skipped, its record stays as it was
  (still \<open>completed\<close>, still with hash \<open>h1\<close> and time 1) and no message is enqueued.
\<close>

theorem changed_file_is_not_reprocessed:
  "find_one_by_dropbox_file_id ''id:a'' (dropbox_files (sync_db completed_state))
     = Some (''f1'', completed_record)
   \<and> fm_id a_pdf = ''id:a'' \<and> fm_id touched_listing = ''id:a'' \<and> fm_id changed_listing = ''id:a''
   \<and> dropbox_modified_at completed_record = Some 1
   \<and> metadata_content_hash completed_record = Some ''h1''
   \<and> server_modified a_pdf = Some 1
   \<and> sync_file sync_services False a_pdf completed_state = (Skipped, completed_state)
   \<and> server_modified touched_listing = Some 2 \<and> content_hash touched_listing = Some ''h1''
   \<and> sync_file sync_services False touched_listing completed_state
       = (Skipped, completed_state\<lparr> sync_db := \<lparr> dropbox_files =
                      [(''f1'', completed_record\<lparr> dropbox_modified_at := Some 2 \<rparr>)],
                    dropbox_chunks = [] \<rparr> \<rparr>)
   \<and> server_modified changed_listing = Some 2 \<and> content_hash changed_listing = Some ''h2''
   \<and> dedup_check completed_record changed_listing = Changed
   \<and> sync_file sync_services False changed_listing completed_state
       = (Skipped, completed_state\<lparr> downloaded := [''/docs/a.pdf''],
                                     blobs := [(''dropbox/d1/a.pdf'', ''%PDF'')] \<rparr>)
   \<and> sync_db (snd (sync_file sync_services False changed_listing completed_state))
       = sync_db completed_state
   \<and> queue (snd (sync_file sync_services False changed_listing completed_state)) = []
   \<and> files_queued (fst (manual_sync sync_services False [changed_listing] completed_state)) = 0
   \<and> files_skipped (fst (manual_sync sync_services False [changed_listing] completed_state)) = 1
   \<and> queue (snd (manual_sync sync_services False [changed_listing] completed_state)) = []
   \<and> sync_db (snd (manual_sync sync_services False [changed_listing] completed_state))
       = sync_db completed_state"
proof -
  note f = completed_state_facts
  have r1: "dropbox_modified_at completed_record = Some 1"
    and r2: "metadata_content_hash completed_record = Some ''h1''"
    by (simp_all add: completed_record_def file_1_def)
  have l1: "server_modified a_pdf = Some 1" by (simp add: a_pdf_def)
  have l2: "server_modified touched_listing = Some 2" "content_hash touched_listing = Some ''h1''"
    by (simp_all add: touched_listing_def a_pdf_def)
  have l3: "server_modified changed_listing = Some 2" "content_hash changed_listing = Some ''h2''"
    by (simp_all add: changed_listing_def a_pdf_def)
  have nr: "\<not> db_raises sync_services c (fm_id fm)" for c fm by (rule f(4))
  note t1 = dedup_decision[OF f(1) nr f(5)[folded f(6)]]
  from t1 r1 l1 have s1: "sync_file sync_services False a_pdf completed_state = (Skipped, completed_state)"
    by simp
  have d2: "dedup_check completed_record touched_listing = Unchanged_hash"
    by (simp add: dedup_check_def Let_def r1 r2 l2 truthy_def)
  have s2: "sync_file sync_services False touched_listing completed_state
       = (Skipped, completed_state\<lparr> sync_db := \<lparr> dropbox_files =
                      [(''f1'', completed_record\<lparr> dropbox_modified_at := Some 2 \<rparr>)],
                    dropbox_chunks = [] \<rparr> \<rparr>)"
    by (simp add: sync_file_def Let_def f(2) f(5) f(7) nr[of _ touched_listing, unfolded f(7)] d2 l2)
       (simp add: completed_state_def)
  have d3: "dedup_check completed_record changed_listing = Changed"
    by (simp add: dedup_check_def Let_def r1 r2 l3 truthy_def)
  have n: "get_file_extension (fm_name changed_listing) = ''pdf''"
    by (simp add: changed_listing_def a_pdf_supported)
  note t3 = dedup_decision[OF f(3) nr f(5)[folded f(8)]]
  from t3 r1 r2 l3 n
  have "sync_file sync_services False changed_listing completed_state
          = upload_and_enqueue sync_services changed_listing ''pdf'' completed_state"
    by simp
  then have s3: "sync_file sync_services False changed_listing completed_state
       = (Skipped, completed_state\<lparr> downloaded := [''/docs/a.pdf''],
                                     blobs := [(''dropbox/d1/a.pdf'', ''%PDF'')] \<rparr>)"
    by (simp add: changed_listing_upload)
  then have s4: "sync_db (snd (sync_file sync_services False changed_listing completed_state))
       = sync_db completed_state"
    and s5: "queue (snd (sync_file sync_services False changed_listing completed_state)) = []"
    by (simp_all add: completed_state_def)
  have m: "manual_sync sync_services False [changed_listing] completed_state
         = (\<lparr> status = ''success'', files_queued = 0, files_skipped = 1,
              message_text = ''Queued '' @ str_int 0 @ '' files for processing, skipped '' @ str_int 1 @ '' files'' \<rparr>,
            completed_state\<lparr> downloaded := [''/docs/a.pdf''],
                              blobs := [(''dropbox/d1/a.pdf'', ''%PDF'')] \<rparr>)"
    by (simp add: manual_sync_def s3)
  then have m1: "files_queued (fst (manual_sync sync_services False [changed_listing] completed_state)) = 0"
    and m2: "files_skipped (fst (manual_sync sync_services False [changed_listing] completed_state)) = 1"
    and m3: "queue (snd (manual_sync sync_services False [changed_listing] completed_state)) = []"
    and m4: "sync_db (snd (manual_sync sync_services False [changed_listing] completed_state))
       = sync_db completed_state"
    by (simp_all add: completed_state_def)
  from f(5) f(6) f(7) f(8) r1 r2 l1 s1 l2 s2 l3 d3 s3 s4 s5 m1 m2 m3 m4 show ?thesis by blast
qed

end
